theory Spec2Isabelle
  imports Main "HOL-Library.AList" "HOL-Library.Multiset"
begin

section \<open>Data model (shared/schema.ts)\<close>

text \<open>
  A row of the \<open>posts\<close> table. Nullable text columns are \<open>string option\<close>
  (\<open>None\<close> is \<open>null\<close>, or a key that is not there); timestamps are milliseconds
  since the epoch, as \<open>Date.getTime()\<close> reads them. The counters are JavaScript
  numbers holding integers; they are exact below \<open>2 ^ 53\<close>, which no run reaches by
  single increments in practice, so they are unbounded naturals here.
  The field \<open>id\<close> is named \<open>id_of\<close> (\<open>id\<close> is the identity function of HOL).
\<close>

record Post =
  id_of :: string
  title :: string
  content :: string
  author :: string
  category :: "string option"
  imageUrl :: "string option"
  imageFileName :: "string option"
  views :: nat
  likes :: nat
  published :: bool
  createdAt :: int
  updatedAt :: int

text \<open>
  \<open>InsertPost\<close>, the output type of \<open>insertPostSchema\<close>: the table without
  \<open>id\<close>, \<open>views\<close>, \<open>likes\<close>, \<open>createdAt\<close>, \<open>updatedAt\<close>. An optional key is an
  option (\<open>None\<close>: the key is absent); the two image columns are optional and
  nullable, so \<open>Some None\<close> is a key holding \<open>null\<close>.
\<close>

record InsertPost =
  title_in :: string
  content_in :: string
  author_in :: string
  category_in :: "string option"
  imageUrl_in :: "string option option"
  imageFileName_in :: "string option option"
  published_in :: "bool option"

text \<open>\<open>Partial<InsertPost>\<close>: every key optional.\<close>

record PartialInsertPost =
  title_upd :: "string option"
  content_upd :: "string option"
  author_upd :: "string option"
  category_upd :: "string option"
  imageUrl_upd :: "string option option"
  imageFileName_upd :: "string option option"
  published_upd :: "bool option"

section \<open>MemStorage (server/storage.ts)\<close>

text \<open>
  The state of a \<open>MemStorage\<close>: \<open>posts\<close> is the JavaScript \<open>Map\<close>, kept as an
  association list in insertion order (\<open>Map.set\<close> on a key that is there keeps its
  place, on a new key appends: \<open>AList.update\<close>); \<open>files\<close> is the content of the
  uploads directory by file name; \<open>effects\<close> is the log, in the order in which they
  happen, of the calls made to the file system and of the removals of a key from the
  map (\<open>this.posts.delete\<close>, the one statement after which an item can no longer be
  read); \<open>console\<close> is what \<open>console.log\<close> printed.

  A call of a method, and a request to a handler, is taken as one step from state to
  state: it runs to its end before the next one starts. Requests that interleave at
  an \<open>await\<close> are not part of this model.
\<close>

type_synonym bytes = "nat list"

datatype effect = Unlink string | WriteFile string | PostsDelete string

record MemStorage =
  posts :: "(string \<times> Post) list"
  files :: "string \<rightharpoonup> bytes"
  effects :: "effect list"
  console :: "string list"

definition empty_storage :: MemStorage where
  "empty_storage = \<lparr>posts = [], files = Map.empty, effects = [], console = []\<rparr>"

datatype storage_error = StorageIO

text \<open>
  \<open>getPosts\<close>: the values of the map, sorted by the comparator
  \<open>b.createdAt - a.createdAt\<close>. \<open>Array.prototype.sort\<close> is stable, and so is
  \<open>sort_key\<close>; the comparator orders by descending \<open>createdAt\<close>, that is by
  ascending \<open>- createdAt\<close>.
\<close>

definition getPosts :: "MemStorage \<Rightarrow> Post list" where
  "getPosts st = sort_key (\<lambda>p. - createdAt p) (map snd (posts st))"

definition getPost :: "MemStorage \<Rightarrow> string \<Rightarrow> Post option" where
  "getPost st i = map_of (posts st) i"

text \<open>\<open>a ?? b\<close> on an optional nullable key: \<open>undefined\<close> and \<open>null\<close> both give \<open>b\<close>.\<close>

definition nullish :: "'a option option \<Rightarrow> 'a option" where
  "nullish v = (case v of None \<Rightarrow> None | Some w \<Rightarrow> w)"

text \<open>
  \<open>createPost\<close>; \<open>randomUUID()\<close> and \<open>new Date()\<close> are read from the environment
  and passed in as \<open>uuid\<close> and \<open>now\<close>. Returns the post and the new state.
\<close>

definition createPost :: "string \<Rightarrow> int \<Rightarrow> InsertPost \<Rightarrow> MemStorage \<Rightarrow> Post \<times> MemStorage" where
  "createPost uuid now insertPost st =
     (let post = \<lparr>id_of = uuid,
                  title = title_in insertPost,
                  content = content_in insertPost,
                  author = author_in insertPost,
                  category = category_in insertPost,
                  imageUrl = nullish (imageUrl_in insertPost),
                  imageFileName = nullish (imageFileName_in insertPost),
                  views = 0,
                  likes = 0,
                  published = (case published_in insertPost of None \<Rightarrow> True | Some b \<Rightarrow> b),
                  createdAt = now,
                  updatedAt = now\<rparr>
      in (post, st\<lparr>posts := AList.update uuid post (posts st)\<rparr>))"

text \<open>The object spread \<open>{...post, ...updateData}\<close>: a key of \<open>updateData\<close> wins.\<close>

definition spread :: "Post \<Rightarrow> PartialInsertPost \<Rightarrow> Post" where
  "spread post updateData =
     post\<lparr>title := (case title_upd updateData of None \<Rightarrow> title post | Some v \<Rightarrow> v),
          content := (case content_upd updateData of None \<Rightarrow> content post | Some v \<Rightarrow> v),
          author := (case author_upd updateData of None \<Rightarrow> author post | Some v \<Rightarrow> v),
          category := (case category_upd updateData of None \<Rightarrow> category post | Some v \<Rightarrow> Some v),
          imageUrl := (case imageUrl_upd updateData of None \<Rightarrow> imageUrl post | Some v \<Rightarrow> v),
          imageFileName :=
            (case imageFileName_upd updateData of None \<Rightarrow> imageFileName post | Some v \<Rightarrow> v),
          published := (case published_upd updateData of None \<Rightarrow> published post | Some v \<Rightarrow> v)\<rparr>"

definition updatePost ::
  "int \<Rightarrow> string \<Rightarrow> PartialInsertPost \<Rightarrow> MemStorage \<Rightarrow> Post option \<times> MemStorage" where
  "updatePost now i updateData st =
     (case map_of (posts st) i of
        None \<Rightarrow> (None, st)
      | Some post \<Rightarrow>
          (let updatedPost = (spread post updateData)\<lparr>updatedAt := now\<rparr>
           in (Some updatedPost, st\<lparr>posts := AList.update i updatedPost (posts st)\<rparr>)))"

text \<open>
  \<open>saveImage\<close>: \<open>fs.promises.writeFile\<close> either completes (\<open>io_ok\<close>) or rejects,
  and then \<open>saveImage\<close> rejects with it. File names are taken relative to the uploads
  directory.
\<close>

definition saveImage ::
  "bool \<Rightarrow> bytes \<Rightarrow> string \<Rightarrow> MemStorage \<Rightarrow> (storage_error + string) \<times> MemStorage" where
  "saveImage io_ok buffer filename st =
     (let st1 = st\<lparr>effects := effects st @ [WriteFile filename]\<rparr>
      in if io_ok
         then (Inr (''/uploads/'' @ filename), st1\<lparr>files := (files st1)(filename \<mapsto> buffer)\<rparr>)
         else (Inl StorageIO, st1))"

text \<open>
  \<open>deleteImage\<close>: \<open>unlink\<close> rejects when the file is not there or the system
  refuses (\<open>io_ok\<close> false); the \<open>catch\<close> logs and returns, so nothing is thrown.
\<close>

definition deleteImage :: "bool \<Rightarrow> string \<Rightarrow> MemStorage \<Rightarrow> MemStorage" where
  "deleteImage io_ok filename st =
     (let st1 = st\<lparr>effects := effects st @ [Unlink filename]\<rparr>
      in if io_ok \<and> files st filename \<noteq> None
         then st1\<lparr>files := (files st1)(filename := None)\<rparr>
         else st1\<lparr>console := console st1 @ [''Could not delete image: '' @ filename]\<rparr>)"

text \<open>The truth value of a nullable string: \<open>null\<close> and the empty string are falsy.\<close>

definition truthy :: "string option \<Rightarrow> bool" where
  "truthy v = (case v of None \<Rightarrow> False | Some s \<Rightarrow> s \<noteq> [])"

definition deletePost :: "bool \<Rightarrow> string \<Rightarrow> MemStorage \<Rightarrow> bool \<times> MemStorage" where
  "deletePost io_ok i st =
     (case map_of (posts st) i of
        None \<Rightarrow> (False, st)
      | Some post \<Rightarrow>
          (let st1 = (if truthy (imageFileName post)
                      then deleteImage io_ok (the (imageFileName post)) st
                      else st)
           in (True, st1\<lparr>posts := AList.delete i (posts st1),
                       effects := effects st1 @ [PostsDelete i]\<rparr>)))"

definition incrementViews :: "int \<Rightarrow> string \<Rightarrow> MemStorage \<Rightarrow> MemStorage" where
  "incrementViews now i st =
     (case map_of (posts st) i of
        None \<Rightarrow> st
      | Some post \<Rightarrow>
          st\<lparr>posts := AList.update i (post\<lparr>views := views post + 1, updatedAt := now\<rparr>) (posts st)\<rparr>)"

definition toggleLike :: "int \<Rightarrow> string \<Rightarrow> MemStorage \<Rightarrow> Post option \<times> MemStorage" where
  "toggleLike now i st =
     (case map_of (posts st) i of
        None \<Rightarrow> (None, st)
      | Some post \<Rightarrow>
          (let post' = post\<lparr>likes := likes post + 1, updatedAt := now\<rparr>
           in (Some post', st\<lparr>posts := AList.update i post' (posts st)\<rparr>)))"

section \<open>Sequences of store operations\<close>

text \<open>
  One call of the storage interface with what it reads from the environment (the
  generated identifier, the clock, whether the file system lets \<open>unlink\<close> through).
\<close>

datatype store_op =
    OpCreate string int InsertPost
  | OpUpdate int string PartialInsertPost
  | OpDelete bool string
  | OpViews int string
  | OpLike int string

fun exec :: "store_op \<Rightarrow> MemStorage \<Rightarrow> MemStorage" where
  "exec (OpCreate uuid now insertPost) st = snd (createPost uuid now insertPost st)"
| "exec (OpUpdate now i updateData) st = snd (updatePost now i updateData st)"
| "exec (OpDelete io_ok i) st = snd (deletePost io_ok i st)"
| "exec (OpViews now i) st = incrementViews now i st"
| "exec (OpLike now i) st = snd (toggleLike now i st)"

definition run :: "store_op list \<Rightarrow> MemStorage \<Rightarrow> MemStorage" where
  "run ops st = foldl (\<lambda>s op. exec op s) st ops"

text \<open>The identifier an operation works on.\<close>

fun target :: "store_op \<Rightarrow> string" where
  "target (OpCreate uuid now insertPost) = uuid"
| "target (OpUpdate now i updateData) = i"
| "target (OpDelete io_ok i) = i"
| "target (OpViews now i) = i"
| "target (OpLike now i) = i"

fun is_like :: "string \<Rightarrow> store_op \<Rightarrow> bool" where
  "is_like i (OpLike now j) = (i = j)"
| "is_like i _ = False"

text \<open>The two parts of the attached-asset reference: both null or both non-null.\<close>

definition paired :: "Post \<Rightarrow> bool" where
  "paired p = ((imageUrl p = None) = (imageFileName p = None))"

definition store_paired :: "MemStorage \<Rightarrow> bool" where
  "store_paired st = list_all (\<lambda>(k, p). paired p) (posts st)"

text \<open>
  An operation whose input names the two parts together: a create whose two keys are
  both nullish or both strings, an update that has neither key or has both, both
  \<open>null\<close> or both strings.
\<close>

fun paired_input :: "store_op \<Rightarrow> bool" where
  "paired_input (OpCreate uuid now insertPost) =
     ((nullish (imageUrl_in insertPost) = None) = (nullish (imageFileName_in insertPost) = None))"
| "paired_input (OpUpdate now i updateData) =
     (case (imageUrl_upd updateData, imageFileName_upd updateData) of
        (None, None) \<Rightarrow> True
      | (Some u, Some f) \<Rightarrow> (u = None) = (f = None)
      | _ \<Rightarrow> False)"
| "paired_input _ = True"

section \<open>The routes (server/routes.ts)\<close>

text \<open>
  A value of a request body: what \<open>JSON.parse\<close> or the multipart parser can put
  under a key. Objects and arrays are one constructor: every check below rejects them.
\<close>

datatype json = JNull | JBool bool | JNum int | JStr string | JOther

type_synonym obj = "(string \<times> json) list"

text \<open>
  A file part of a multipart request, as multer sees it and hands it over:
  \<open>extension\<close> is \<open>path.extname(originalname)\<close>. A request is \<open>req.body\<close> and
  \<open>req.file\<close>, the file part named \<open>image\<close> if the request has one (\<open>file\<close> is a
  keyword of Isabelle, so the two fields carry the prefix \<open>req_\<close>). Requests with
  other file parts are not part of this model.
\<close>

record upload =
  mimetype :: string
  extension :: string
  buffer :: bytes

record request =
  req_body :: obj
  req_file :: "upload option"

text \<open>
  What one request reads from the environment: \<open>randomUUID()\<close>, \<open>new Date()\<close>,
  \<open>Date.now()\<close> in decimal, the digits \<open>Math.random().toString(36).substring(7)\<close>,
  and whether \<open>writeFile\<close> and \<open>unlink\<close> go through.
\<close>

record env =
  env_uuid :: string
  env_now :: int
  env_stamp :: string
  env_rnd :: string
  write_ok :: bool
  unlink_ok :: bool

datatype zod_error = ZodError

text \<open>
  The checks of zod, on the value under a key (\<open>None\<close>: the key is absent). Each
  returns \<open>None\<close> for an issue. \<open>z.string()\<close>, \<open>z.string().min(1)\<close>,
  \<open>z.string().optional()\<close>, \<open>z.string().min(1).optional()\<close>,
  \<open>z.string().nullable().optional()\<close> and \<open>z.boolean().optional()\<close>.
\<close>

fun z_string :: "json option \<Rightarrow> string option" where
  "z_string (Some (JStr s)) = Some s"
| "z_string _ = None"

fun z_string_min1 :: "json option \<Rightarrow> string option" where
  "z_string_min1 (Some (JStr s)) = (if 1 \<le> length s then Some s else None)"
| "z_string_min1 _ = None"

fun z_string_optional :: "json option \<Rightarrow> string option option" where
  "z_string_optional None = Some None"
| "z_string_optional (Some (JStr s)) = Some (Some s)"
| "z_string_optional _ = None"

fun z_string_min1_optional :: "json option \<Rightarrow> string option option" where
  "z_string_min1_optional None = Some None"
| "z_string_min1_optional (Some (JStr s)) = (if 1 \<le> length s then Some (Some s) else None)"
| "z_string_min1_optional _ = None"

fun z_string_nullable_optional :: "json option \<Rightarrow> string option option option" where
  "z_string_nullable_optional None = Some None"
| "z_string_nullable_optional (Some JNull) = Some (Some None)"
| "z_string_nullable_optional (Some (JStr s)) = Some (Some (Some s))"
| "z_string_nullable_optional _ = None"

fun z_boolean_optional :: "json option \<Rightarrow> bool option option" where
  "z_boolean_optional None = Some None"
| "z_boolean_optional (Some (JBool b)) = Some (Some b)"
| "z_boolean_optional _ = None"

text \<open>
  \<open>insertPostSchema.parse\<close>. The schema has the keys of \<open>InsertPost\<close>: \<open>title\<close> and
  \<open>content\<close> are \<open>notNull\<close> text columns (any string), \<open>author\<close> is extended with
  \<open>min(1)\<close>, \<open>category\<close> is an optional string, the image columns are nullable,
  \<open>published\<close> has a default. Keys the schema does not have are dropped from the
  result (zod's objects strip them), so they are not read.
\<close>

definition insertPostSchema_parse :: "obj \<Rightarrow> zod_error + InsertPost" where
  "insertPostSchema_parse data =
     (case z_string (map_of data ''title'') of None \<Rightarrow> Inl ZodError | Some t \<Rightarrow>
      case z_string (map_of data ''content'') of None \<Rightarrow> Inl ZodError | Some c \<Rightarrow>
      case z_string_min1 (map_of data ''author'') of None \<Rightarrow> Inl ZodError | Some a \<Rightarrow>
      case z_string_optional (map_of data ''category'') of None \<Rightarrow> Inl ZodError | Some cat \<Rightarrow>
      case z_string_nullable_optional (map_of data ''imageUrl'') of None \<Rightarrow> Inl ZodError | Some iu \<Rightarrow>
      case z_string_nullable_optional (map_of data ''imageFileName'') of None \<Rightarrow> Inl ZodError | Some ifn \<Rightarrow>
      case z_boolean_optional (map_of data ''published'') of None \<Rightarrow> Inl ZodError | Some pub \<Rightarrow>
        Inr \<lparr>title_in = t, content_in = c, author_in = a, category_in = cat,
             imageUrl_in = iu, imageFileName_in = ifn, published_in = pub\<rparr>)"

text \<open>\<open>insertPostSchema.partial().parse\<close>: the same checks, every key optional.\<close>

definition updateSchema_parse :: "obj \<Rightarrow> zod_error + PartialInsertPost" where
  "updateSchema_parse data =
     (case z_string_optional (map_of data ''title'') of None \<Rightarrow> Inl ZodError | Some t \<Rightarrow>
      case z_string_optional (map_of data ''content'') of None \<Rightarrow> Inl ZodError | Some c \<Rightarrow>
      case z_string_min1_optional (map_of data ''author'') of None \<Rightarrow> Inl ZodError | Some a \<Rightarrow>
      case z_string_optional (map_of data ''category'') of None \<Rightarrow> Inl ZodError | Some cat \<Rightarrow>
      case z_string_nullable_optional (map_of data ''imageUrl'') of None \<Rightarrow> Inl ZodError | Some iu \<Rightarrow>
      case z_string_nullable_optional (map_of data ''imageFileName'') of None \<Rightarrow> Inl ZodError | Some ifn \<Rightarrow>
      case z_boolean_optional (map_of data ''published'') of None \<Rightarrow> Inl ZodError | Some pub \<Rightarrow>
        Inr \<lparr>title_upd = t, content_upd = c, author_upd = a, category_upd = cat,
             imageUrl_upd = iu, imageFileName_upd = ifn, published_upd = pub\<rparr>)"

text \<open>
  ``Convert published string to boolean if present'': a key that is there becomes the
  boolean \<open>published === 'true' || published === true\<close>.
\<close>

definition convert_published :: "obj \<Rightarrow> obj" where
  "convert_published data =
     (case map_of data ''published'' of
        None \<Rightarrow> data
      | Some v \<Rightarrow> AList.update ''published'' (JBool (v = JStr ''true'' \<or> v = JBool True)) data)"

text \<open>
  The generated file name \<open>`${Date.now()}-${random}${fileExtension}`\<close>. In the
  handlers below the variables \<open>imageUrl\<close> and \<open>imageFileName\<close> of the source are
  \<open>url\<close> and \<open>fileName\<close> (the two names are fields of \<open>Post\<close> here).
\<close>

definition gen_imageFileName :: "env \<Rightarrow> upload \<Rightarrow> string" where
  "gen_imageFileName e f = env_stamp e @ ''-'' @ env_rnd e @ extension f"

text \<open>
  A response is a status with a post as its JSON body, or a status with a message, or
  the answer Express gives to a request that the upload middleware refused (status
  500, the error carrying none; its body is written outside the routes). A handler
  returns its response, the notification it hands to \<open>broadcastUpdate\<close> (if any) and
  the new state of the storage.
\<close>

datatype upload_error = TypeNotAllowed | FileTooLarge

datatype response = Json nat Post | Message nat string | UploadRefused upload_error

datatype payload = PostData Post | IdData string

type_synonym notification = "string \<times> payload"

text \<open>
  The middleware \<open>upload.single('image')\<close>, which both \<open>POST /api/posts\<close> and
  \<open>PUT /api/posts/:id\<close> run before their handler. \<open>fileFilter\<close> refuses a file whose
  type is not one of \<open>allowedTypes\<close>, and the limit \<open>fileSize\<close> refuses a file of more
  than \<open>10 * 1024 * 1024\<close> bytes. A refusal is an error passed on to Express: the
  handler of the route does not run.
\<close>

definition allowedTypes :: "string list" where
  "allowedTypes = [''image/jpeg'', ''image/png'', ''image/webp'']"

definition upload_single :: "request \<Rightarrow> upload_error + request" where
  "upload_single req =
     (case req_file req of
        None \<Rightarrow> Inr req
      | Some f \<Rightarrow>
          if mimetype f \<notin> set allowedTypes then Inl TypeNotAllowed
          else if 10 * 1024 * 1024 < length (buffer f) then Inl FileTooLarge
          else Inr req)"

text \<open>
  The handler of \<open>POST /api/posts\<close>: what runs once \<open>upload.single('image')\<close> has let
  the request through. A rejected \<open>saveImage\<close> is not a \<open>ZodError\<close>, so the \<open>catch\<close>
  answers 500; a failed \<open>parse\<close> answers 400.
\<close>

definition route_create_post ::
  "env \<Rightarrow> request \<Rightarrow> MemStorage \<Rightarrow> response \<times> notification option \<times> MemStorage" where
  "route_create_post e req st =
     (case (case req_file req of
              None \<Rightarrow> (Inr (JNull, JNull), st)
            | Some f \<Rightarrow>
                (let fileName = gen_imageFileName e f
                 in case saveImage (write_ok e) (buffer f) fileName st of
                      (Inl err, st1) \<Rightarrow> (Inl err, st1)
                    | (Inr url, st1) \<Rightarrow> (Inr (JStr url, JStr fileName), st1)))
      of
        (Inl err, st1) \<Rightarrow> (Message 500 ''Failed to create post'', None, st1)
      | (Inr (url, fileName), st1) \<Rightarrow>
          (let postData = convert_published
                 (AList.update ''imageFileName'' fileName
                   (AList.update ''imageUrl'' url (req_body req)))
           in case insertPostSchema_parse postData of
                Inl err \<Rightarrow> (Message 400 ''Invalid post data'', None, st1)
              | Inr validatedData \<Rightarrow>
                  (case createPost (env_uuid e) (env_now e) validatedData st1 of
                     (post, st2) \<Rightarrow> (Json 201 post, Some (''post_created'', PostData post), st2))))"

text \<open>
  The handler of \<open>PUT /api/posts/:id\<close>. With a new file the old image is deleted
  first, then the new one is saved, and the two keys are put over those of the body.
\<close>

definition route_update_post ::
  "env \<Rightarrow> string \<Rightarrow> request \<Rightarrow> MemStorage \<Rightarrow> response \<times> notification option \<times> MemStorage" where
  "route_update_post e i req st =
     (case getPost st i of
        None \<Rightarrow> (Message 404 ''Post not found'', None, st)
      | Some existingPost \<Rightarrow>
          (let updateData = convert_published (req_body req)
           in case (case req_file req of
                      None \<Rightarrow> (Inr updateData, st)
                    | Some f \<Rightarrow>
                        (let st1 = (if truthy (imageFileName existingPost)
                                    then deleteImage (unlink_ok e) (the (imageFileName existingPost)) st
                                    else st);
                             fileName = gen_imageFileName e f
                         in case saveImage (write_ok e) (buffer f) fileName st1 of
                              (Inl err, st2) \<Rightarrow> (Inl err, st2)
                            | (Inr url, st2) \<Rightarrow>
                                (Inr (AList.update ''imageFileName'' (JStr fileName)
                                       (AList.update ''imageUrl'' (JStr url) updateData)), st2)))
              of
                (Inl err, st2) \<Rightarrow> (Message 500 ''Failed to update post'', None, st2)
              | (Inr updateData', st2) \<Rightarrow>
                  (case updateSchema_parse updateData' of
                     Inl err \<Rightarrow> (Message 400 ''Invalid update data'', None, st2)
                   | Inr validatedData \<Rightarrow>
                       (case updatePost (env_now e) i validatedData st2 of
                          (None, st3) \<Rightarrow> (Message 404 ''Post not found'', None, st3)
                        | (Some post, st3) \<Rightarrow>
                            (Json 200 post, Some (''post_updated'', PostData post), st3)))))"

text \<open>
  The two routes as they are registered: the middleware, then the handler.
\<close>

definition post_api_posts ::
  "env \<Rightarrow> request \<Rightarrow> MemStorage \<Rightarrow> response \<times> notification option \<times> MemStorage" where
  "post_api_posts e req st =
     (case upload_single req of
        Inl err \<Rightarrow> (UploadRefused err, None, st)
      | Inr req' \<Rightarrow> route_create_post e req' st)"

definition put_api_posts ::
  "env \<Rightarrow> string \<Rightarrow> request \<Rightarrow> MemStorage \<Rightarrow> response \<times> notification option \<times> MemStorage" where
  "put_api_posts e i req st =
     (case upload_single req of
        Inl err \<Rightarrow> (UploadRefused err, None, st)
      | Inr req' \<Rightarrow> route_update_post e i req' st)"

text \<open>\<open>DELETE /api/posts/:id\<close> and \<open>POST /api/posts/:id/like\<close>.\<close>

definition route_delete_post ::
  "env \<Rightarrow> string \<Rightarrow> MemStorage \<Rightarrow> response \<times> notification option \<times> MemStorage" where
  "route_delete_post e i st =
     (case deletePost (unlink_ok e) i st of
        (False, st1) \<Rightarrow> (Message 404 ''Post not found'', None, st1)
      | (True, st1) \<Rightarrow>
          (Message 200 ''Post deleted successfully'', Some (''post_deleted'', IdData i), st1))"

definition route_like_post ::
  "env \<Rightarrow> string \<Rightarrow> MemStorage \<Rightarrow> response \<times> notification option \<times> MemStorage" where
  "route_like_post e i st =
     (case toggleLike (env_now e) i st of
        (None, st1) \<Rightarrow> (Message 404 ''Post not found'', None, st1)
      | (Some post, st1) \<Rightarrow> (Json 200 post, Some (''post_liked'', PostData post), st1))"

subsection \<open>Notions for stating the properties of the routes\<close>

text \<open>
  The state in which the update handler calls \<open>saveImage\<close>: the old image, if the
  post names one, has been deleted.
\<close>

definition released :: "env \<Rightarrow> Post \<Rightarrow> MemStorage \<Rightarrow> MemStorage" where
  "released e existingPost st =
     (if truthy (imageFileName existingPost)
      then deleteImage (unlink_ok e) (the (imageFileName existingPost)) st
      else st)"

text \<open>The data that the update handler validates.\<close>

definition update_data :: "env \<Rightarrow> request \<Rightarrow> obj" where
  "update_data e req =
     (case req_file req of
        None \<Rightarrow> convert_published (req_body req)
      | Some f \<Rightarrow>
          AList.update ''imageFileName'' (JStr (gen_imageFileName e f))
            (AList.update ''imageUrl'' (JStr (''/uploads/'' @ gen_imageFileName e f))
              (convert_published (req_body req))))"

text \<open>
  The data that the create handler validates, and the state in which it does so (the
  image, if there is one, has been written).
\<close>

definition post_data :: "env \<Rightarrow> request \<Rightarrow> obj" where
  "post_data e req =
     (case req_file req of
        None \<Rightarrow>
          convert_published
            (AList.update ''imageFileName'' JNull (AList.update ''imageUrl'' JNull (req_body req)))
      | Some f \<Rightarrow>
          convert_published
            (AList.update ''imageFileName'' (JStr (gen_imageFileName e f))
              (AList.update ''imageUrl'' (JStr (''/uploads/'' @ gen_imageFileName e f))
                (req_body req))))"

definition uploaded :: "env \<Rightarrow> request \<Rightarrow> MemStorage \<Rightarrow> MemStorage" where
  "uploaded e req st =
     (case req_file req of
        None \<Rightarrow> st
      | Some f \<Rightarrow> snd (saveImage (write_ok e) (buffer f) (gen_imageFileName e f) st))"

text \<open>
  The value under a key is a string, is a string that is not empty; a body with the
  three required fields (\<open>title\<close> and \<open>content\<close> strings, \<open>author\<close> a string that is
  not empty); a body that passes \<open>insertPostSchema\<close> in a create: the three required
  fields, and \<open>category\<close> absent or a string.
\<close>

definition is_string :: "json option \<Rightarrow> bool" where
  "is_string v = (case v of Some (JStr s) \<Rightarrow> True | _ \<Rightarrow> False)"

definition is_nonempty_string :: "json option \<Rightarrow> bool" where
  "is_nonempty_string v = (case v of Some (JStr s) \<Rightarrow> s \<noteq> [] | _ \<Rightarrow> False)"

definition required_fields :: "obj \<Rightarrow> bool" where
  "required_fields b =
     (is_string (map_of b ''title'') \<and> is_string (map_of b ''content'')
      \<and> is_nonempty_string (map_of b ''author''))"

definition valid_create :: "obj \<Rightarrow> bool" where
  "valid_create b =
     (is_string (map_of b ''title'') \<and> is_string (map_of b ''content'')
      \<and> is_nonempty_string (map_of b ''author'')
      \<and> (map_of b ''category'' = None \<or> is_string (map_of b ''category'')))"

text \<open>
  The state in which the update handler validates: with a file, the old image has
  been deleted and the new one written.
\<close>

definition rewritten :: "env \<Rightarrow> Post \<Rightarrow> request \<Rightarrow> MemStorage \<Rightarrow> MemStorage" where
  "rewritten e existingPost req st =
     (case req_file req of
        None \<Rightarrow> st
      | Some f \<Rightarrow>
          snd (saveImage (write_ok e) (buffer f) (gen_imageFileName e f) (released e existingPost st)))"

subsection \<open>Sequences of requests\<close>

text \<open>
  A request to one of the four routes that change the store, and a sequence of them
  served one after the other.
\<close>

datatype api_call =
    ApiCreate env request
  | ApiUpdate env string request
  | ApiDelete env string
  | ApiLike env string

fun handle :: "api_call \<Rightarrow> MemStorage \<Rightarrow> MemStorage" where
  "handle (ApiCreate e req) st = snd (snd (post_api_posts e req st))"
| "handle (ApiUpdate e i req) st = snd (snd (put_api_posts e i req st))"
| "handle (ApiDelete e i) st = snd (snd (route_delete_post e i st))"
| "handle (ApiLike e i) st = snd (snd (route_like_post e i st))"

definition serve :: "api_call list \<Rightarrow> MemStorage \<Rightarrow> MemStorage" where
  "serve calls st = foldl (\<lambda>s c. handle c s) st calls"

text \<open>
  A request that leaves the two image keys to the handler or names neither: any
  create, and an update that uploads a file or whose body has neither \<open>imageUrl\<close>
  nor \<open>imageFileName\<close>.
\<close>

fun image_keys_together :: "api_call \<Rightarrow> bool" where
  "image_keys_together (ApiUpdate e i req) =
     (req_file req \<noteq> None
      \<or> (map_of (req_body req) ''imageUrl'' = None \<and> map_of (req_body req) ''imageFileName'' = None))"
| "image_keys_together _ = True"

section \<open>The broadcast (broadcastUpdate in server/routes.ts)\<close>

text \<open>
  \<open>sseConnections\<close> is a \<open>Set\<close> of response objects: a list without repetition in
  insertion order, a connection being a number. What \<open>broadcastUpdate\<close> does is
  returned as a list of events: the one call of \<open>JSON.stringify\<close> with the message
  built from it, and for each visited connection whether \<open>res.write(message)\<close> wrote
  or threw. \<open>throws\<close> tells for which connections \<open>write\<close> throws.
\<close>

datatype hub_event = Stringified string | Wrote nat string | WriteThrew nat string

text \<open>
  \<open>sseConnections.forEach\<close>: \<open>todo\<close> are the members not yet visited, \<open>conns\<close> is
  the set. The callback deletes only the member it is visiting, so the members still
  to visit are those of the set at the start.
\<close>

fun forEach_write ::
  "(nat \<Rightarrow> bool) \<Rightarrow> string \<Rightarrow> nat list \<Rightarrow> nat list \<Rightarrow> nat list \<times> hub_event list" where
  "forEach_write throws message [] conns = (conns, [])"
| "forEach_write throws message (res # todo) conns =
     (if throws res
      then (case forEach_write throws message todo (removeAll res conns) of
              (conns', evs) \<Rightarrow> (conns', WriteThrew res message # evs))
      else (case forEach_write throws message todo conns of
              (conns', evs) \<Rightarrow> (conns', Wrote res message # evs)))"

text \<open>
  \<open>stringify ty data\<close> stands for \<open>JSON.stringify({ type, data })\<close>. The result is the
  new set of connections and the events.
\<close>

definition broadcastUpdate ::
  "(string \<Rightarrow> 'd \<Rightarrow> string) \<Rightarrow> (nat \<Rightarrow> bool) \<Rightarrow> string \<Rightarrow> 'd \<Rightarrow> nat list
     \<Rightarrow> nat list \<times> hub_event list" where
  "broadcastUpdate stringify throws ty data conns =
     (let message = ''data: '' @ stringify ty data @ [CHR 0x0A, CHR 0x0A]
      in case forEach_write throws message conns conns of
           (conns', evs) \<Rightarrow> (conns', Stringified message # evs))"

text \<open>The messages written to a connection, and the calls of \<open>JSON.stringify\<close>.\<close>

fun received :: "nat \<Rightarrow> hub_event list \<Rightarrow> string list" where
  "received c [] = []"
| "received c (Wrote c' m # evs) = (if c' = c then m # received c evs else received c evs)"
| "received c (_ # evs) = received c evs"

fun attempts :: "nat \<Rightarrow> hub_event list \<Rightarrow> nat" where
  "attempts c [] = 0"
| "attempts c (Wrote c' m # evs) = (if c' = c then Suc (attempts c evs) else attempts c evs)"
| "attempts c (WriteThrew c' m # evs) = (if c' = c then Suc (attempts c evs) else attempts c evs)"
| "attempts c (_ # evs) = attempts c evs"

fun serializations :: "hub_event list \<Rightarrow> nat" where
  "serializations [] = 0"
| "serializations (Stringified m # evs) = Suc (serializations evs)"
| "serializations (_ # evs) = serializations evs"

section \<open>The like button (handleLike and likeMutation in the public blog page)\<close>

text \<open>
  The toasts of the like path, by their titles: ``Already liked!'', ``Liking
  post...'' with its description, ``Post liked!'' and ``Error''.
\<close>

datatype toast = AlreadyLiked | LikingPost string | PostLiked | LikeError

text \<open>
  The state of the page that the like path reads and writes: the two pieces of React
  state, the callbacks waiting in \<open>setTimeout\<close> (all with the same delay, so first in,
  first out), the requests sent and not answered yet, every request sent so far, and
  the toasts shown. Each click is handled on the state the previous event left (React
  renders again before the next click is dispatched).
\<close>

record page =
  likedPosts :: "string set"
  isLiking :: "string option"
  timers :: "string list"
  inflight :: "string list"
  requests :: "string list"
  toasts :: "toast list"

definition initial_page :: page where
  "initial_page =
     \<lparr>likedPosts = {}, isLiking = None, timers = [], inflight = [], requests = [], toasts = []\<rparr>"

definition handleLike :: "string \<Rightarrow> string \<Rightarrow> page \<Rightarrow> page" where
  "handleLike postId postTitle pg =
     (if postId \<in> likedPosts pg
      then pg\<lparr>toasts := toasts pg @ [AlreadyLiked]\<rparr>
      else if isLiking pg = Some postId
      then pg
      else pg\<lparr>isLiking := Some postId,
              toasts := toasts pg @
                [LikingPost ([CHR 0x22] @ take 40 postTitle
                   @ (if 40 < length postTitle then ''...'' else []) @ [CHR 0x22])],
              timers := timers pg @ [postId]\<rparr>)"

text \<open>
  The oldest timer runs: \<open>likeMutation.mutate(postId)\<close> sends the request
  \<open>POST /api/posts/:id/like\<close>.
\<close>

definition timer_fires :: "page \<Rightarrow> page" where
  "timer_fires pg =
     (case timers pg of
        [] \<Rightarrow> pg
      | postId # rest \<Rightarrow>
          pg\<lparr>timers := rest,
             inflight := inflight pg @ [postId],
             requests := requests pg @ [postId]\<rparr>)"

text \<open>\<open>onSuccess\<close> and \<open>onError\<close> of \<open>likeMutation\<close>, for the request of \<open>postId\<close>.\<close>

definition like_onSuccess :: "string \<Rightarrow> page \<Rightarrow> page" where
  "like_onSuccess postId pg =
     pg\<lparr>likedPosts := insert postId (likedPosts pg),
        isLiking := None,
        inflight := remove1 postId (inflight pg),
        toasts := toasts pg @ [PostLiked]\<rparr>"

definition like_onError :: "string \<Rightarrow> page \<Rightarrow> page" where
  "like_onError postId pg =
     pg\<lparr>isLiking := None,
        inflight := remove1 postId (inflight pg),
        toasts := toasts pg @ [LikeError]\<rparr>"

text \<open>
  The like button of a post, the one caller of \<open>handleLike\<close>: it is rendered with
  \<open>disabled={likedPosts.has(post.id) || isLiking === post.id}\<close>, and a click on a
  disabled button does nothing.
\<close>

definition like_button_disabled :: "string \<Rightarrow> page \<Rightarrow> bool" where
  "like_button_disabled postId pg = (postId \<in> likedPosts pg \<or> isLiking pg = Some postId)"

definition click_like :: "string \<Rightarrow> string \<Rightarrow> page \<Rightarrow> page" where
  "click_like postId postTitle pg =
     (if like_button_disabled postId pg then pg else handleLike postId postTitle pg)"

text \<open>A like submission for \<open>postId\<close> is outstanding: scheduled, or sent and not answered.\<close>

definition outstanding :: "string \<Rightarrow> page \<Rightarrow> bool" where
  "outstanding postId pg = (postId \<in> set (timers pg) \<or> postId \<in> set (inflight pg))"

section \<open>Example data\<close>

text \<open>A post with an attached image, and a storage holding it and the image file.\<close>

definition post_a :: Post where
  "post_a = \<lparr>id_of = ''a'', title = ''A'', content = ''B'', author = ''C'', category = None,
     imageUrl = Some ''/uploads/old.png'', imageFileName = Some ''old.png'',
     views = 0, likes = 0, published = True, createdAt = 1, updatedAt = 1\<rparr>"

definition store_a :: MemStorage where
  "store_a = \<lparr>posts = [(''a'', post_a)], files = [''old.png'' \<mapsto> [1, 2, 3]],
     effects = [], console = []\<rparr>"

text \<open>Likes of \<open>a\<close> between operations on another post \<open>b\<close>.\<close>

definition ops_a :: "store_op list" where
  "ops_a =
     [OpLike 5 ''a'',
      OpCreate ''b'' 6 \<lparr>title_in = ''T'', content_in = ''U'', author_in = ''V'', category_in = None,
                        imageUrl_in = None, imageFileName_in = None, published_in = None\<rparr>,
      OpViews 7 ''b'',
      OpLike 8 ''a'',
      OpDelete True ''b'']"

text \<open>Two operations that name the image reference in pairs, and one that does not.\<close>

definition insert_abc :: InsertPost where
  "insert_abc = \<lparr>title_in = ''A'', content_in = ''B'', author_in = ''C'', category_in = None,
     imageUrl_in = Some None, imageFileName_in = Some None, published_in = None\<rparr>"

definition update_both_image_keys :: PartialInsertPost where
  "update_both_image_keys = \<lparr>title_upd = None, content_upd = None, author_upd = None,
     category_upd = None, imageUrl_upd = Some (Some ''/uploads/n.png''),
     imageFileName_upd = Some (Some ''n.png''), published_upd = None\<rparr>"

definition update_lone_imageUrl :: PartialInsertPost where
  "update_lone_imageUrl = \<lparr>title_upd = None, content_upd = None, author_upd = None,
     category_upd = None, imageUrl_upd = Some (Some ''/u/x.png''), imageFileName_upd = None,
     published_upd = None\<rparr>"

text \<open>
  Requests and what they read from the environment: a create with the three
  required fields, one with an empty title, one with an empty author; an update whose
  body has \<open>imageUrl\<close> alone, one that renames the post and also sends \<open>id\<close> and
  \<open>likes\<close>, and one that uploads a new image while \<open>writeFile\<close> fails.
\<close>

definition env_1 :: env where
  "env_1 = \<lparr>env_uuid = ''a'', env_now = 1, env_stamp = ''1700000000000'', env_rnd = ''k3x9q'',
     write_ok = True, unlink_ok = True\<rparr>"

definition req_abc :: request where
  "req_abc = \<lparr>req_body = [(''title'', JStr ''A''), (''content'', JStr ''B''), (''author'', JStr ''C'')],
     req_file = None\<rparr>"

definition req_lone_imageUrl :: request where
  "req_lone_imageUrl = \<lparr>req_body = [(''imageUrl'', JStr ''/u/x.png'')], req_file = None\<rparr>"

definition req_empty_title :: request where
  "req_empty_title =
     \<lparr>req_body = [(''title'', JStr []), (''content'', JStr ''B''), (''author'', JStr ''C'')],
      req_file = None\<rparr>"

definition req_empty_author :: request where
  "req_empty_author =
     \<lparr>req_body = [(''title'', JStr ''A''), (''content'', JStr ''B''), (''author'', JStr [])],
      req_file = None\<rparr>"

definition req_retitle :: request where
  "req_retitle =
     \<lparr>req_body = [(''title'', JStr ''New''), (''id'', JStr ''zz''), (''likes'', JNum 999)],
      req_file = None\<rparr>"

definition req_new_image :: request where
  "req_new_image =
     \<lparr>req_body = [],
      req_file = Some \<lparr>mimetype = ''image/png'', extension = ''.png'', buffer = [4, 5, 6]\<rparr>\<rparr>"

definition env_write_fails :: env where
  "env_write_fails = env_1\<lparr>env_now := 2, write_ok := False\<rparr>"

text \<open>
  The store after a create and an update whose body names \<open>imageUrl\<close> and the empty
  string as \<open>imageFileName\<close>, and after a create and an update whose body names
  \<open>imageUrl\<close> alone.
\<close>

definition req_empty_storage_name :: request where
  "req_empty_storage_name =
     \<lparr>req_body = [(''imageUrl'', JStr ''/uploads/''), (''imageFileName'', JStr [])],
      req_file = None\<rparr>"

definition store_empty_name :: MemStorage where
  "store_empty_name =
     snd (snd (route_update_post (env_1\<lparr>env_now := 2\<rparr>) ''a'' req_empty_storage_name
       (snd (snd (route_create_post env_1 req_abc empty_storage)))))"

definition store_lone_locator :: MemStorage where
  "store_lone_locator =
     snd (snd (route_update_post (env_1\<lparr>env_now := 2\<rparr>) ''a'' req_lone_imageUrl
       (snd (snd (route_create_post env_1 req_abc empty_storage)))))"

text \<open>
  Creates without an author: one that uploads an image, and one that uploads a file
  of a type that is not allowed.
\<close>

definition req_no_author_image :: request where
  "req_no_author_image =
     \<lparr>req_body = [(''title'', JStr ''A''), (''content'', JStr ''B'')],
      req_file = Some \<lparr>mimetype = ''image/png'', extension = ''.png'', buffer = [4, 5, 6]\<rparr>\<rparr>"

definition req_no_author_text_file :: request where
  "req_no_author_text_file =
     \<lparr>req_body = [(''title'', JStr ''A''), (''content'', JStr ''B'')],
      req_file = Some \<lparr>mimetype = ''text/plain'', extension = ''.txt'', buffer = [4, 5, 6]\<rparr>\<rparr>"

text \<open>A broadcast to three connections, the second of which throws on \<open>write\<close>.\<close>

definition stringify_example :: "string \<Rightarrow> string \<Rightarrow> string" where
  "stringify_example ty data = ''{type:'' @ ty @ '',data:'' @ data @ ''}''"

definition message_example :: string where
  "message_example = ''data: '' @ stringify_example ''post_liked'' ''x'' @ [CHR 0x0A, CHR 0x0A]"

definition events_example :: "hub_event list" where
  "events_example = [Stringified message_example, Wrote 1 message_example,
       WriteThrew 2 message_example, Wrote 3 message_example]"

section \<open>Properties of the store\<close>

lemma getPost_deleteImage [simp]: "getPost (deleteImage ok fn st) i = getPost st i"
  by (simp add: getPost_def deleteImage_def Let_def)

lemma posts_deleteImage [simp]: "posts (deleteImage ok fn st) = posts st"
  by (simp add: deleteImage_def Let_def)

lemma getPost_in_getPosts: "getPost st i = Some p \<Longrightarrow> p \<in> set (getPosts st)"
proof -
  assume "getPost st i = Some p"
  then have "(i, p) \<in> set (posts st)"
    by (simp add: getPost_def map_of_SomeD)
  then have "p \<in> snd ` set (posts st)"
    by force
  then show ?thesis
    by (simp add: getPosts_def)
qed

lemma getPost_exec_other:
  "target op \<noteq> i \<Longrightarrow> getPost (exec op st) i = getPost st i"
proof (cases op)
  case (OpCreate uuid now ins)
  assume "target op \<noteq> i"
  with OpCreate show ?thesis
    by (simp add: createPost_def getPost_def Let_def update_conv')
next
  case (OpUpdate now j upd)
  assume "target op \<noteq> i"
  with OpUpdate show ?thesis
    by (simp add: updatePost_def getPost_def Let_def update_conv' split: option.splits)
next
  case (OpDelete ok j)
  assume "target op \<noteq> i"
  with OpDelete show ?thesis
    by (simp add: deletePost_def getPost_def Let_def delete_conv' split: option.splits)
next
  case (OpViews now j)
  assume "target op \<noteq> i"
  with OpViews show ?thesis
    by (simp add: incrementViews_def getPost_def update_conv' split: option.splits)
next
  case (OpLike now j)
  assume "target op \<noteq> i"
  with OpLike show ?thesis
    by (simp add: toggleLike_def getPost_def Let_def update_conv' split: option.splits)
qed

lemma toggleLike_found:
  "getPost st i = Some p \<Longrightarrow>
   toggleLike now i st
     = (Some (p\<lparr>likes := likes p + 1, updatedAt := now\<rparr>),
        st\<lparr>posts := AList.update i (p\<lparr>likes := likes p + 1, updatedAt := now\<rparr>) (posts st)\<rparr>)"
  by (simp add: toggleLike_def getPost_def Let_def)

lemma toggleLike_absent: "getPost st i = None \<Longrightarrow> toggleLike now i st = (None, st)"
  by (simp add: toggleLike_def getPost_def)

lemma getPost_toggleLike_same:
  "getPost st i = Some p \<Longrightarrow>
   getPost (snd (toggleLike now i st)) i = Some (p\<lparr>likes := likes p + 1, updatedAt := now\<rparr>)"
  by (simp add: toggleLike_found) (simp add: getPost_def update_conv')

lemma run_Cons: "run (op # ops) st = run ops (exec op st)"
  by (simp add: run_def)

lemma run_likes:
  "getPost st i = Some p \<Longrightarrow> \<forall>op \<in> set ops. is_like i op \<or> target op \<noteq> i \<Longrightarrow>
   \<exists>p'. getPost (run ops st) i = Some p' \<and> likes p' = likes p + length (filter (is_like i) ops)"
proof (induction ops arbitrary: st p)
  case Nil
  then show ?case by (simp add: run_def)
next
  case (Cons op ops)
  show ?case
  proof (cases "is_like i op")
    case True
    then obtain now where op: "op = OpLike now i"
      by (cases op) auto
    let ?p1 = "p\<lparr>likes := likes p + 1, updatedAt := now\<rparr>"
    have "getPost (exec op st) i = Some ?p1"
      using Cons.prems(1) op by (simp add: getPost_toggleLike_same)
    moreover have "\<forall>op \<in> set ops. is_like i op \<or> target op \<noteq> i"
      using Cons.prems(2) by simp
    ultimately obtain p' where "getPost (run ops (exec op st)) i = Some p'"
      and "likes p' = likes ?p1 + length (filter (is_like i) ops)"
      using Cons.IH by blast
    then show ?thesis
      using True by (auto simp: run_Cons)
  next
    case False
    then have "target op \<noteq> i"
      using Cons.prems(2) by simp
    then have "getPost (exec op st) i = Some p"
      using Cons.prems(1) by (simp add: getPost_exec_other)
    moreover have "\<forall>op \<in> set ops. is_like i op \<or> target op \<noteq> i"
      using Cons.prems(2) by simp
    ultimately obtain p' where "getPost (run ops (exec op st)) i = Some p'"
      and "likes p' = likes p + length (filter (is_like i) ops)"
      using Cons.IH by blast
    then show ?thesis
      using False by (auto simp: run_Cons)
  qed
qed

subsection \<open>Deleting\<close>

text \<open>
  C7. For an item in the store, \<open>deletePost\<close> returns true; afterwards \<open>getPost\<close>
  finds nothing under the id and a second \<open>deletePost\<close> returns false and leaves the
  state as it is (the model has no branch that throws).
\<close>

theorem delete_then_get_and_delete_again:
  assumes "getPost st i = Some p"
  shows "fst (deletePost ok i st) = True
       \<and> getPost (snd (deletePost ok i st)) i = None
       \<and> deletePost ok' i (snd (deletePost ok i st)) = (False, snd (deletePost ok i st))"
proof -
  let ?st' = "snd (deletePost ok i st)"
  from assms have found: "map_of (posts st) i = Some p"
    by (simp add: getPost_def)
  have gone: "map_of (posts ?st') i = None"
    using found by (simp add: deletePost_def Let_def delete_conv')
  have "fst (deletePost ok i st) = True"
    using found by (simp add: deletePost_def Let_def)
  moreover have "getPost ?st' i = None"
    using gone by (simp add: getPost_def)
  moreover have "deletePost ok' i ?st' = (False, ?st')"
    using gone by (simp add: deletePost_def)
  ultimately show ?thesis by blast
qed

theorem delete_then_get_and_delete_again_witness:
  "fst (deletePost True ''a'' store_a) = True
   \<and> getPost (snd (deletePost True ''a'' store_a)) ''a'' = None
   \<and> deletePost True ''a'' (snd (deletePost True ''a'' store_a))
       = (False, snd (deletePost True ''a'' store_a))"
proof -
  have h: "getPost store_a ''a'' = Some post_a"
    by (simp add: getPost_def store_a_def)
  show ?thesis
    using delete_then_get_and_delete_again [OF h, of True True] by simp
qed

text \<open>
  C6 does not hold as stated. \<open>deletePost\<close> releases under the test
  \<open>if (post.imageFileName)\<close>, which is one of truth value. An update whose body names
  \<open>imageUrl\<close> and the empty string as \<open>imageFileName\<close> leaves an item with both parts
  of the reference non-null, and one whose body names \<open>imageUrl\<close> alone leaves an item
  with a locator; deleting either removes the item with no call to the file system.
\<close>

theorem delete_without_release_counterexample:
  "map (imageUrl \<circ> snd) (posts store_empty_name) = [Some ''/uploads/'']
   \<and> map (imageFileName \<circ> snd) (posts store_empty_name) = [Some []]
   \<and> effects store_empty_name = []
   \<and> deletePost True ''a'' store_empty_name
       = (True, store_empty_name\<lparr>posts := [], effects := [PostsDelete ''a'']\<rparr>)
   \<and> map (imageUrl \<circ> snd) (posts store_lone_locator) = [Some ''/u/x.png'']
   \<and> map (imageFileName \<circ> snd) (posts store_lone_locator) = [None]
   \<and> effects store_lone_locator = []
   \<and> deletePost True ''a'' store_lone_locator
       = (True, store_lone_locator\<lparr>posts := [], effects := [PostsDelete ''a'']\<rparr>)"
  by (simp add: store_empty_name_def store_lone_locator_def req_empty_storage_name_def
      req_lone_imageUrl_def req_abc_def env_1_def empty_storage_def route_update_post_def
      route_create_post_def getPost_def insertPostSchema_parse_def updateSchema_parse_def
      convert_published_def createPost_def updatePost_def spread_def nullish_def deletePost_def
      truthy_def Let_def)

text \<open>
  C6, amended. For every item whose storage name is a string that is not empty,
  \<open>deletePost\<close> attempts the release before the item becomes unreachable: what it adds
  to the log is the \<open>unlink\<close> of the file and, after it, the removal of the key from the
  map, and in the state after the \<open>unlink\<close> the item is still found by \<open>getPost\<close> and
  listed by \<open>getPosts\<close>. Whatever \<open>unlink\<close> does (\<open>ok\<close> is arbitrary, and so is the
  uploads directory), nothing is thrown: \<open>deletePost\<close> returns true and the item is
  gone from the store.
\<close>

theorem delete_releases_asset_first:
  assumes "getPost st i = Some p" and "imageFileName p = Some fn" and "fn \<noteq> []"
  shows "effects (snd (deletePost ok i st)) = effects st @ [Unlink fn, PostsDelete i]
       \<and> effects (deleteImage ok fn st) = effects st @ [Unlink fn]
       \<and> getPost (deleteImage ok fn st) i = Some p
       \<and> p \<in> set (getPosts (deleteImage ok fn st))
       \<and> deletePost ok i st
           = (True, (deleteImage ok fn st)\<lparr>posts := AList.delete i (posts st),
                      effects := effects st @ [Unlink fn, PostsDelete i]\<rparr>)
       \<and> getPost (snd (deletePost ok i st)) i = None
       \<and> i \<notin> fst ` set (posts (snd (deletePost ok i st)))"
proof -
  let ?st1 = "deleteImage ok fn st"
  from assms(1) have found: "map_of (posts st) i = Some p"
    by (simp add: getPost_def)
  have calls: "effects ?st1 = effects st @ [Unlink fn]"
    by (simp add: deleteImage_def Let_def)
  have still: "getPost ?st1 i = Some p"
    using assms(1) by simp
  have listed: "p \<in> set (getPosts ?st1)"
    using still by (rule getPost_in_getPosts)
  have result: "deletePost ok i st
      = (True, ?st1\<lparr>posts := AList.delete i (posts st),
                    effects := effects st @ [Unlink fn, PostsDelete i]\<rparr>)"
    using found assms(2,3) by (simp add: deletePost_def truthy_def Let_def calls)
  have order: "effects (snd (deletePost ok i st)) = effects st @ [Unlink fn, PostsDelete i]"
    by (simp add: result)
  have gone: "getPost (snd (deletePost ok i st)) i = None"
    by (simp add: result getPost_def delete_conv')
  have "i \<notin> fst ` set (posts (snd (deletePost ok i st)))"
    by (simp add: result delete_notin_dom)
  with order calls still listed result gone show ?thesis by blast
qed

theorem delete_releases_asset_first_witness:
  "effects (snd (deletePost False ''a'' store_a)) = [Unlink ''old.png'', PostsDelete ''a'']
   \<and> getPost (deleteImage False ''old.png'' store_a) ''a'' = Some post_a
   \<and> fst (deletePost False ''a'' store_a) = True
   \<and> getPost (snd (deletePost False ''a'' store_a)) ''a'' = None"
proof -
  have h1: "getPost store_a ''a'' = Some post_a"
    by (simp add: getPost_def store_a_def)
  have h2: "imageFileName post_a = Some ''old.png''"
    by (simp add: post_a_def)
  have h3: "''old.png'' \<noteq> []"
    by simp
  have h4: "effects store_a = []"
    by (simp add: store_a_def)
  note t = delete_releases_asset_first [OF h1 h2 h3, of False]
  have "effects (snd (deletePost False ''a'' store_a)) = [Unlink ''old.png'', PostsDelete ''a'']"
    using t h4 by simp
  moreover have "getPost (deleteImage False ''old.png'' store_a) ''a'' = Some post_a"
    using t by simp
  moreover have "fst (deletePost False ''a'' store_a) = True"
    using t by simp
  moreover have "getPost (snd (deletePost False ''a'' store_a)) ''a'' = None"
    using t by blast
  ultimately show ?thesis by blast
qed

text \<open>
  For a post without a storage name, or with the empty string as its storage name,
  \<open>deletePost\<close> makes no call to the file system.
\<close>

lemma delete_without_storage_name:
  assumes "getPost st i = Some p" and "\<not> truthy (imageFileName p)"
  shows "deletePost ok i st
     = (True, st\<lparr>posts := AList.delete i (posts st), effects := effects st @ [PostsDelete i]\<rparr>)"
  using assms by (simp add: deletePost_def getPost_def)

text \<open>
  The log entry \<open>PostsDelete\<close> marks the moment an item becomes unreachable: an
  operation after which an item is no longer found is a delete of that item, and the
  removal is the last entry of the log then.
\<close>

lemma unreachable_only_by_logged_delete:
  assumes "getPost st i = Some p" and "getPost (exec op st) i = None"
  shows "(\<exists>ok. op = OpDelete ok i) \<and> (\<exists>es. effects (exec op st) = es @ [PostsDelete i])"
proof (cases op)
  case (OpCreate uuid now ins)
  with assms show ?thesis
    by (auto simp: createPost_def getPost_def Let_def update_conv' split: if_splits)
next
  case (OpUpdate now j upd)
  with assms show ?thesis
    by (auto simp: updatePost_def getPost_def Let_def update_conv' split: option.splits if_splits)
next
  case (OpDelete ok j)
  show ?thesis
  proof (cases "j = i")
    case True
    with OpDelete assms(1) show ?thesis
      by (simp add: deletePost_def getPost_def Let_def)
  next
    case False
    then have "target op \<noteq> i"
      using OpDelete by simp
    then have "getPost (exec op st) i = getPost st i"
      by (rule getPost_exec_other)
    with assms show ?thesis
      by simp
  qed
next
  case (OpViews now j)
  with assms show ?thesis
    by (auto simp: incrementViews_def getPost_def update_conv' split: option.splits if_splits)
next
  case (OpLike now j)
  with assms show ?thesis
    by (auto simp: toggleLike_def getPost_def Let_def update_conv' split: option.splits if_splits)
qed

subsection \<open>Listing\<close>

text \<open>
  C8. \<open>getPosts\<close> returns every item held by the map, each as often as the map holds
  it, ordered by creation time with the most recent first. It is a total function
  with no error result: the source has no statement that throws.
\<close>

theorem getPosts_all_sorted:
  "mset (getPosts st) = mset (map snd (posts st))
   \<and> sorted_wrt (\<lambda>a b. createdAt b \<le> createdAt a) (getPosts st)"
proof -
  have "sorted (map (\<lambda>p. - createdAt p) (getPosts st))"
    by (simp add: getPosts_def)
  then have "sorted_wrt (\<lambda>a b. createdAt b \<le> createdAt a) (getPosts st)"
    by (simp add: sorted_wrt_map)
  moreover have "mset (getPosts st) = mset (map snd (posts st))"
    by (simp add: getPosts_def)
  ultimately show ?thesis by simp
qed

subsection \<open>Likes\<close>

text \<open>
  C4. For an item \<open>i\<close> present in the store and any sequence of operations in which
  every operation is a like of \<open>i\<close> or works on another identifier, the item is still
  there afterwards and its like counter has grown by exactly the number of likes of
  \<open>i\<close> in the sequence. Each call of \<open>toggleLike\<close> on \<open>i\<close> returns the updated item,
  which is the one the store then holds, with the counter one higher. For an
  identifier that is absent, \<open>toggleLike\<close> returns nothing and the state is the same.
\<close>

theorem like_adds_one_per_call:
  assumes "getPost st i = Some p"
    and "\<forall>op \<in> set ops. is_like i op \<or> target op \<noteq> i"
  shows "(\<exists>p'. getPost (run ops st) i = Some p'
            \<and> likes p' = likes p + length (filter (is_like i) ops))
       \<and> (\<forall>now. \<exists>p'. fst (toggleLike now i st) = Some p'
            \<and> getPost (snd (toggleLike now i st)) i = Some p'
            \<and> likes p' = likes p + 1)
       \<and> (\<forall>j now. getPost st j = None \<longrightarrow> toggleLike now j st = (None, st))"
proof -
  have "\<exists>p'. getPost (run ops st) i = Some p'
            \<and> likes p' = likes p + length (filter (is_like i) ops)"
    using assms by (rule run_likes)
  moreover have "\<forall>now. \<exists>p'. fst (toggleLike now i st) = Some p'
            \<and> getPost (snd (toggleLike now i st)) i = Some p'
            \<and> likes p' = likes p + 1"
    using assms(1) by (simp add: getPost_toggleLike_same) (simp add: toggleLike_found)
  moreover have "\<forall>j now. getPost st j = None \<longrightarrow> toggleLike now j st = (None, st)"
    by (simp add: toggleLike_absent)
  ultimately show ?thesis by blast
qed

theorem like_adds_one_per_call_witness:
  "(\<exists>p'. getPost (run ops_a store_a) ''a'' = Some p' \<and> likes p' = 2)
   \<and> toggleLike 9 ''zz'' store_a = (None, store_a)"
proof -
  have h1: "getPost store_a ''a'' = Some post_a"
    by (simp add: getPost_def store_a_def)
  have h2: "\<forall>op \<in> set ops_a. is_like ''a'' op \<or> target op \<noteq> ''a''"
    by (simp add: ops_a_def)
  have h3: "getPost store_a ''zz'' = None"
    by (simp add: getPost_def store_a_def)
  have h4: "likes post_a + length (filter (is_like ''a'') ops_a) = 2"
    by (simp add: post_a_def ops_a_def)
  show ?thesis
    using like_adds_one_per_call [OF h1 h2] h3 h4 by simp
qed

subsection \<open>The image reference\<close>

lemma list_all_update:
  "P (k, v) \<Longrightarrow> list_all P al \<Longrightarrow> list_all P (AList.update k v al)"
  by (induction al) auto

lemma list_all_delete: "list_all P al \<Longrightarrow> list_all P (AList.delete k al)"
  by (induction al) auto

lemma store_paired_lookup:
  "store_paired st \<Longrightarrow> map_of (posts st) i = Some p \<Longrightarrow> paired p"
  by (auto simp: store_paired_def list_all_iff dest: map_of_SomeD)

lemma paired_spread:
  "paired p \<Longrightarrow> paired_input (OpUpdate now i upd) \<Longrightarrow> paired ((spread p upd)\<lparr>updatedAt := now\<rparr>)"
  by (auto simp: paired_def spread_def split: option.splits)

lemma exec_paired:
  assumes "store_paired st" and "paired_input op"
  shows "store_paired (exec op st)"
proof (cases op)
  case (OpCreate uuid now ins)
  with assms show ?thesis
    by (simp add: createPost_def store_paired_def Let_def list_all_update paired_def)
next
  case (OpUpdate now i upd)
  show ?thesis
  proof (cases "map_of (posts st) i")
    case None
    with OpUpdate assms(1) show ?thesis
      by (simp add: updatePost_def)
  next
    case (Some p)
    then have "paired p"
      using assms(1) by (simp add: store_paired_lookup)
    then have "paired ((spread p upd)\<lparr>updatedAt := now\<rparr>)"
      using assms(2) OpUpdate by (simp add: paired_spread)
    with Some OpUpdate assms(1) show ?thesis
      by (simp add: updatePost_def Let_def store_paired_def list_all_update)
  qed
next
  case (OpDelete ok i)
  with assms(1) show ?thesis
    by (simp add: deletePost_def Let_def store_paired_def list_all_delete split: option.splits)
next
  case (OpViews now i)
  show ?thesis
  proof (cases "map_of (posts st) i")
    case None
    with OpViews assms(1) show ?thesis
      by (simp add: incrementViews_def)
  next
    case (Some p)
    then have "paired p"
      using assms(1) by (simp add: store_paired_lookup)
    with Some OpViews assms(1) show ?thesis
      by (simp add: incrementViews_def store_paired_def list_all_update paired_def)
  qed
next
  case (OpLike now i)
  show ?thesis
  proof (cases "map_of (posts st) i")
    case None
    with OpLike assms(1) show ?thesis
      by (simp add: toggleLike_def)
  next
    case (Some p)
    then have "paired p"
      using assms(1) by (simp add: store_paired_lookup)
    with Some OpLike assms(1) show ?thesis
      by (simp add: toggleLike_def Let_def store_paired_def list_all_update paired_def)
  qed
qed

lemma run_paired:
  "store_paired st \<Longrightarrow> \<forall>op \<in> set ops. paired_input op \<Longrightarrow> store_paired (run ops st)"
  by (induction ops arbitrary: st) (simp_all add: run_def exec_paired)

text \<open>
  C2 does not hold as stated: \<open>createPost\<close> and \<open>updatePost\<close> store the two parts of
  the reference as they are given, each on its own, and the update handler passes
  \<open>imageUrl\<close> and \<open>imageFileName\<close> of the request body on. An update with \<open>imageUrl\<close>
  alone, on the storage or through \<open>PUT /api/posts/:id\<close>, leaves an item with a
  locator and no storage name.
\<close>

theorem unpaired_reference_counterexample:
  "\<not> store_paired (run [OpCreate ''a'' 1 insert_abc, OpUpdate 2 ''a'' update_lone_imageUrl] empty_storage)
   \<and> \<not> store_paired (snd (snd (route_update_post (env_1\<lparr>env_now := 2\<rparr>) ''a'' req_lone_imageUrl
          (snd (snd (route_create_post env_1 req_abc empty_storage))))))"
  by (simp add: run_def createPost_def updatePost_def spread_def store_paired_def paired_def
      insert_abc_def update_lone_imageUrl_def empty_storage_def env_1_def req_abc_def
      req_lone_imageUrl_def route_update_post_def route_create_post_def getPost_def
      insertPostSchema_parse_def updateSchema_parse_def convert_published_def nullish_def Let_def)

text \<open>
  C2, amended. For every finite sequence of store operations starting from the empty
  store in which every create and every update names the two parts of the reference
  together (a create with both nullish or both strings; an update with neither key,
  or with both keys, both \<open>null\<close> or both strings), every item held by the store
  afterwards has its locator and its storage name both null or both non-null.
\<close>

theorem paired_inputs_keep_references_paired:
  assumes "\<forall>op \<in> set ops. paired_input op"
  shows "store_paired (run ops empty_storage)
       \<and> (\<forall>i p. getPost (run ops empty_storage) i = Some p \<longrightarrow> paired p)
       \<and> (\<forall>p \<in> set (getPosts (run ops empty_storage)). paired p)"
proof -
  have "store_paired empty_storage"
    by (simp add: store_paired_def empty_storage_def)
  then have inv: "store_paired (run ops empty_storage)"
    using assms by (rule run_paired)
  then have "\<forall>i p. getPost (run ops empty_storage) i = Some p \<longrightarrow> paired p"
    by (auto simp: getPost_def dest: store_paired_lookup)
  moreover have "\<forall>p \<in> set (getPosts (run ops empty_storage)). paired p"
    using inv by (auto simp: getPosts_def store_paired_def list_all_iff)
  ultimately show ?thesis
    using inv by blast
qed

theorem paired_inputs_keep_references_paired_witness:
  "store_paired (run [OpCreate ''a'' 1 insert_abc, OpUpdate 2 ''a'' update_both_image_keys] empty_storage)
   \<and> (\<exists>p. getPost (run [OpCreate ''a'' 1 insert_abc, OpUpdate 2 ''a'' update_both_image_keys]
              empty_storage) ''a'' = Some p \<and> paired p)"
proof -
  let ?ops = "[OpCreate ''a'' 1 insert_abc, OpUpdate 2 ''a'' update_both_image_keys]"
  have h: "\<forall>op \<in> set ?ops. paired_input op"
    by (simp add: insert_abc_def update_both_image_keys_def nullish_def)
  have found: "\<exists>p. getPost (run ?ops empty_storage) ''a'' = Some p"
    by (simp add: run_def createPost_def updatePost_def getPost_def empty_storage_def Let_def)
  show ?thesis
    using paired_inputs_keep_references_paired [OF h] found by blast
qed

section \<open>Properties of the routes\<close>

lemma updatePost_found:
  "getPost st i = Some p \<Longrightarrow>
   updatePost now i upd st
     = (Some ((spread p upd)\<lparr>updatedAt := now\<rparr>),
        st\<lparr>posts := AList.update i ((spread p upd)\<lparr>updatedAt := now\<rparr>) (posts st)\<rparr>)"
  by (simp add: updatePost_def getPost_def Let_def)

lemma getPost_saveImage [simp]: "getPost (snd (saveImage ok b fn st)) i = getPost st i"
  by (simp add: saveImage_def getPost_def Let_def)

lemma posts_saveImage [simp]: "posts (snd (saveImage ok b fn st)) = posts st"
  by (simp add: saveImage_def Let_def)

lemma saveImage_fails [simp]: "fst (saveImage False b fn st) = Inl StorageIO"
  by (simp add: saveImage_def Let_def)

lemma saveImage_ok [simp]: "fst (saveImage True b fn st) = Inr (''/uploads/'' @ fn)"
  by (simp add: saveImage_def Let_def)

lemma posts_released [simp]: "posts (released e p st) = posts st"
  by (simp add: released_def)

lemma getPost_released [simp]: "getPost (released e p st) i = getPost st i"
  by (simp add: released_def)

lemma route_update_write_fails:
  assumes "getPost st i = Some p" and "req_file req = Some f" and "\<not> write_ok e"
  shows "route_update_post e i req st
     = (Message 500 ''Failed to update post'', None,
        snd (saveImage False (buffer f) (gen_imageFileName e f) (released e p st)))"
  using assms
  by (simp add: route_update_post_def released_def Let_def case_prod_beta split: sum.splits)

lemma map_of_convert_published_other:
  "k \<noteq> ''published'' \<Longrightarrow> map_of (convert_published data) k = map_of data k"
  by (simp add: convert_published_def update_conv' split: option.splits)

lemma map_of_convert_published_None:
  "map_of data ''published'' = None \<Longrightarrow> convert_published data = data"
  by (simp add: convert_published_def)

lemma z_boolean_optional_convert_published:
  "z_boolean_optional (map_of (convert_published data) ''published'')
     = (case map_of data ''published'' of
          None \<Rightarrow> Some None
        | Some v \<Rightarrow> Some (Some (v = JStr ''true'' \<or> v = JBool True)))"
  by (simp add: convert_published_def update_conv' split: option.splits)

lemma z_string_optional_None: "z_string_optional None = Some None"
  by simp

lemma z_string_optional_absent:
  "z_string_optional v = Some w \<Longrightarrow> v = None \<Longrightarrow> w = None"
  by simp

lemma z_string_min1_optional_absent:
  "z_string_min1_optional v = Some w \<Longrightarrow> v = None \<Longrightarrow> w = None"
  by simp

lemma z_string_nullable_optional_absent:
  "z_string_nullable_optional v = Some w \<Longrightarrow> v = None \<Longrightarrow> w = None"
  by simp

lemma z_boolean_optional_absent:
  "z_boolean_optional v = Some w \<Longrightarrow> v = None \<Longrightarrow> w = None"
  by simp

text \<open>What a validated update holds under a key that the data does not have: nothing.\<close>

lemma updateSchema_parse_absent:
  assumes "updateSchema_parse data = Inr v"
  shows "(map_of data ''title'' = None \<longrightarrow> title_upd v = None)
       \<and> (map_of data ''content'' = None \<longrightarrow> content_upd v = None)
       \<and> (map_of data ''author'' = None \<longrightarrow> author_upd v = None)
       \<and> (map_of data ''category'' = None \<longrightarrow> category_upd v = None)
       \<and> (map_of data ''imageUrl'' = None \<longrightarrow> imageUrl_upd v = None)
       \<and> (map_of data ''imageFileName'' = None \<longrightarrow> imageFileName_upd v = None)
       \<and> (map_of data ''published'' = None \<longrightarrow> published_upd v = None)"
  using assms
  by (auto simp: updateSchema_parse_def split: option.splits)

lemma spread_frame:
  "id_of (spread p v) = id_of p \<and> views (spread p v) = views p \<and> likes (spread p v) = likes p
   \<and> createdAt (spread p v) = createdAt p"
  by (simp add: spread_def)

lemma spread_absent:
  "(title_upd v = None \<longrightarrow> title (spread p v) = title p)
   \<and> (content_upd v = None \<longrightarrow> content (spread p v) = content p)
   \<and> (author_upd v = None \<longrightarrow> author (spread p v) = author p)
   \<and> (category_upd v = None \<longrightarrow> category (spread p v) = category p)
   \<and> (imageUrl_upd v = None \<longrightarrow> imageUrl (spread p v) = imageUrl p)
   \<and> (imageFileName_upd v = None \<longrightarrow> imageFileName (spread p v) = imageFileName p)
   \<and> (published_upd v = None \<longrightarrow> published (spread p v) = published p)"
  by (simp add: spread_def)

text \<open>An accepted update: the handler answers 200 exactly through \<open>updatePost\<close>.\<close>

lemma route_update_accepted:
  assumes "getPost st i = Some p" and "route_update_post e i req st = (Json 200 p', n, st')"
  shows "\<exists>v st2. updateSchema_parse (update_data e req) = Inr v
           \<and> posts st2 = posts st
           \<and> updatePost (env_now e) i v st2 = (Some p', st')"
proof (cases "req_file req")
  case None
  with assms show ?thesis
    by (auto simp: route_update_post_def update_data_def Let_def
        split: sum.splits option.splits prod.splits)
next
  case (Some f)
  show ?thesis
  proof (cases "write_ok e")
    case False
    with assms Some show ?thesis
      by (simp add: route_update_write_fails)
  next
    case True
    let ?st2 = "snd (saveImage True (buffer f) (gen_imageFileName e f) (released e p st))"
    have "posts ?st2 = posts st"
      by simp
    moreover have "\<exists>v. updateSchema_parse (update_data e req) = Inr v
           \<and> updatePost (env_now e) i v ?st2 = (Some p', st')"
      using assms Some True
      by (auto simp: route_update_post_def update_data_def released_def Let_def saveImage_def
          split: sum.splits option.splits prod.splits if_splits)
    ultimately show ?thesis by blast
  qed
qed

subsection \<open>Updating with a new image\<close>

text \<open>
  With a new file, for a post that names an image, the handler calls \<open>unlink\<close> on the
  old image and then \<open>writeFile\<close> on the new one, whether the write goes through or
  not.
\<close>

lemma update_route_release_precedes_write:
  assumes "getPost st i = Some p" and "imageFileName p = Some fn" and "fn \<noteq> []"
    and "req_file req = Some f"
  shows "effects (snd (saveImage (write_ok e) (buffer f) (gen_imageFileName e f) (released e p st)))
     = effects st @ [Unlink fn, WriteFile (gen_imageFileName e f)]"
  using assms by (simp add: released_def truthy_def deleteImage_def saveImage_def Let_def)

text \<open>
  C1 does not hold as stated. The item \<open>a\<close> names the image \<open>old.png\<close>, which is in
  the uploads directory; an update uploads a new image and \<open>writeFile\<close> fails. The
  handler answers 500 and the item still names \<open>old.png\<close>, but \<open>old.png\<close> is no longer
  in the uploads directory: it was deleted before the write was tried.
\<close>

theorem failed_asset_write_counterexample:
  "files store_a ''old.png'' = Some [1, 2, 3]
   \<and> getPost store_a ''a'' = Some post_a
   \<and> imageFileName post_a = Some ''old.png''
   \<and> fst (route_update_post env_write_fails ''a'' req_new_image store_a)
       = Message 500 ''Failed to update post''
   \<and> getPost (snd (snd (route_update_post env_write_fails ''a'' req_new_image store_a))) ''a''
       = Some post_a
   \<and> files (snd (snd (route_update_post env_write_fails ''a'' req_new_image store_a))) ''old.png''
       = None"
  by (simp add: route_update_post_def getPost_def store_a_def post_a_def env_write_fails_def
      env_1_def req_new_image_def truthy_def deleteImage_def saveImage_def Let_def)

text \<open>
  C1, amended. For every item in the store, if the update handler is called with a
  new file and the write of the new asset fails, the whole update fails: the answer
  is 500, nothing is broadcast, and the items of the store are what they were, so the
  item still has its old locator and its old storage name.
\<close>

theorem failed_asset_write_keeps_item:
  assumes "getPost st i = Some p" and "req_file req = Some f" and "\<not> write_ok e"
  shows "fst (route_update_post e i req st) = Message 500 ''Failed to update post''
       \<and> fst (snd (route_update_post e i req st)) = None
       \<and> posts (snd (snd (route_update_post e i req st))) = posts st
       \<and> getPost (snd (snd (route_update_post e i req st))) i = Some p"
  using assms by (simp add: route_update_write_fails)

theorem failed_asset_write_keeps_item_witness:
  "fst (route_update_post env_write_fails ''a'' req_new_image store_a)
     = Message 500 ''Failed to update post''
   \<and> getPost (snd (snd (route_update_post env_write_fails ''a'' req_new_image store_a))) ''a''
       = Some post_a"
proof -
  have h1: "getPost store_a ''a'' = Some post_a"
    by (simp add: getPost_def store_a_def)
  have h2: "req_file req_new_image
            = Some \<lparr>mimetype = ''image/png'', extension = ''.png'', buffer = [4, 5, 6]\<rparr>"
    by (simp add: req_new_image_def)
  have h3: "\<not> write_ok env_write_fails"
    by (simp add: env_write_fails_def)
  show ?thesis
    using failed_asset_write_keeps_item [OF h1 h2 h3] by simp
qed

subsection \<open>What an update can change\<close>

text \<open>
  C10. For every item in the store and every update that the handler of
  \<open>PUT /api/posts/:id\<close> accepts (it answers 200 with the updated post), the identifier,
  the view counter, the like counter and the created timestamp of the item are
  unchanged, whatever keys the body has; the updated timestamp is the time of the
  update; a field whose key the body does not have (for the two image fields: and no
  file is uploaded) is unchanged; the store holds the updated item, and every other
  item is as before.
\<close>

theorem update_route_frame:
  assumes "getPost st i = Some p" and "route_update_post e i req st = (Json 200 p', n, st')"
  shows "id_of p' = id_of p \<and> views p' = views p \<and> likes p' = likes p
       \<and> createdAt p' = createdAt p
       \<and> updatedAt p' = env_now e
       \<and> getPost st' i = Some p'
       \<and> (\<forall>j. j \<noteq> i \<longrightarrow> getPost st' j = getPost st j)
       \<and> (map_of (req_body req) ''title'' = None \<longrightarrow> title p' = title p)
       \<and> (map_of (req_body req) ''content'' = None \<longrightarrow> content p' = content p)
       \<and> (map_of (req_body req) ''author'' = None \<longrightarrow> author p' = author p)
       \<and> (map_of (req_body req) ''category'' = None \<longrightarrow> category p' = category p)
       \<and> (map_of (req_body req) ''published'' = None \<longrightarrow> published p' = published p)
       \<and> (req_file req = None \<and> map_of (req_body req) ''imageUrl'' = None
            \<longrightarrow> imageUrl p' = imageUrl p)
       \<and> (req_file req = None \<and> map_of (req_body req) ''imageFileName'' = None
            \<longrightarrow> imageFileName p' = imageFileName p)"
proof -
  from assms obtain v st2 where parse: "updateSchema_parse (update_data e req) = Inr v"
    and same: "posts st2 = posts st"
    and upd: "updatePost (env_now e) i v st2 = (Some p', st')"
    using route_update_accepted by blast
  have "getPost st2 i = Some p"
    using assms(1) same by (simp add: getPost_def)
  then have p': "p' = (spread p v)\<lparr>updatedAt := env_now e\<rparr>"
    and st': "st' = st2\<lparr>posts := AList.update i p' (posts st2)\<rparr>"
    using upd by (auto simp: updatePost_found)
  have frame: "id_of p' = id_of p \<and> views p' = views p \<and> likes p' = likes p
       \<and> createdAt p' = createdAt p \<and> updatedAt p' = env_now e"
    by (simp add: p' spread_frame)
  have here: "getPost st' i = Some p'"
    by (simp add: st' getPost_def update_conv')
  have others: "\<forall>j. j \<noteq> i \<longrightarrow> getPost st' j = getPost st j"
    by (simp add: st' getPost_def update_conv' same)
  have key: "map_of (update_data e req) k = map_of (req_body req) k"
    if "k \<noteq> ''published''" and "k \<noteq> ''imageUrl''" and "k \<noteq> ''imageFileName''" for k
    using that
    by (simp add: update_data_def update_conv' map_of_convert_published_other split: option.splits)
  have pub: "map_of (update_data e req) ''published'' = None"
    if "map_of (req_body req) ''published'' = None"
    using that
    by (simp add: update_data_def update_conv' map_of_convert_published_None split: option.splits)
  have img: "map_of (update_data e req) k = map_of (req_body req) k"
    if "req_file req = None" and "k \<noteq> ''published''" for k
    using that by (simp add: update_data_def map_of_convert_published_other)
  note absent = updateSchema_parse_absent [OF parse]
  note keep = spread_absent [of v p]
  have t: "map_of (req_body req) ''title'' = None \<longrightarrow> title p' = title p"
    using absent keep key [of "''title''"] by (simp add: p')
  have c: "map_of (req_body req) ''content'' = None \<longrightarrow> content p' = content p"
    using absent keep key [of "''content''"] by (simp add: p')
  have a: "map_of (req_body req) ''author'' = None \<longrightarrow> author p' = author p"
    using absent keep key [of "''author''"] by (simp add: p')
  have g: "map_of (req_body req) ''category'' = None \<longrightarrow> category p' = category p"
    using absent keep key [of "''category''"] by (simp add: p')
  have b: "map_of (req_body req) ''published'' = None \<longrightarrow> published p' = published p"
    using absent keep pub by (simp add: p')
  have u: "req_file req = None \<and> map_of (req_body req) ''imageUrl'' = None
            \<longrightarrow> imageUrl p' = imageUrl p"
    using absent keep img [of "''imageUrl''"] by (simp add: p')
  have f: "req_file req = None \<and> map_of (req_body req) ''imageFileName'' = None
            \<longrightarrow> imageFileName p' = imageFileName p"
    using absent keep img [of "''imageFileName''"] by (simp add: p')
  from frame here others t c a g b u f show ?thesis
    by blast
qed

theorem update_route_frame_witness:
  "route_update_post (env_1\<lparr>env_now := 2\<rparr>) ''a'' req_retitle store_a
     = (Json 200 (post_a\<lparr>title := ''New'', updatedAt := 2\<rparr>),
        Some (''post_updated'', PostData (post_a\<lparr>title := ''New'', updatedAt := 2\<rparr>)),
        store_a\<lparr>posts := [(''a'', post_a\<lparr>title := ''New'', updatedAt := 2\<rparr>)]\<rparr>)
   \<and> id_of (post_a\<lparr>title := ''New'', updatedAt := 2\<rparr>) = id_of post_a
   \<and> likes (post_a\<lparr>title := ''New'', updatedAt := 2\<rparr>) = likes post_a
   \<and> views (post_a\<lparr>title := ''New'', updatedAt := 2\<rparr>) = views post_a
   \<and> createdAt (post_a\<lparr>title := ''New'', updatedAt := 2\<rparr>) = createdAt post_a
   \<and> imageUrl (post_a\<lparr>title := ''New'', updatedAt := 2\<rparr>) = imageUrl post_a"
proof -
  have h1: "getPost store_a ''a'' = Some post_a"
    by (simp add: getPost_def store_a_def)
  have h2: "route_update_post (env_1\<lparr>env_now := 2\<rparr>) ''a'' req_retitle store_a
     = (Json 200 (post_a\<lparr>title := ''New'', updatedAt := 2\<rparr>),
        Some (''post_updated'', PostData (post_a\<lparr>title := ''New'', updatedAt := 2\<rparr>)),
        store_a\<lparr>posts := [(''a'', post_a\<lparr>title := ''New'', updatedAt := 2\<rparr>)]\<rparr>)"
    by (simp add: route_update_post_def getPost_def store_a_def env_1_def req_retitle_def
        updateSchema_parse_def convert_published_def updatePost_def spread_def Let_def)
  have h3: "req_file req_retitle = None \<and> map_of (req_body req_retitle) ''imageUrl'' = None"
    by (simp add: req_retitle_def)
  show ?thesis
    using update_route_frame [OF h1 h2] h2 h3 by blast
qed

subsection \<open>Validation of a create\<close>

lemma posts_uploaded [simp]: "posts (uploaded e req st) = posts st"
  by (simp add: uploaded_def split: option.splits)

lemma route_create_write_fails:
  assumes "req_file req = Some f" and "\<not> write_ok e"
  shows "route_create_post e req st
     = (Message 500 ''Failed to create post'', None, uploaded e req st)"
  using assms
  by (simp add: route_create_post_def uploaded_def saveImage_def Let_def)

lemma route_create_validates:
  assumes "req_file req = None \<or> write_ok e"
  shows "route_create_post e req st
     = (case insertPostSchema_parse (post_data e req) of
          Inl err \<Rightarrow> (Message 400 ''Invalid post data'', None, uploaded e req st)
        | Inr validatedData \<Rightarrow>
            (Json 201 (fst (createPost (env_uuid e) (env_now e) validatedData (uploaded e req st))),
             Some (''post_created'',
               PostData (fst (createPost (env_uuid e) (env_now e) validatedData (uploaded e req st)))),
             snd (createPost (env_uuid e) (env_now e) validatedData (uploaded e req st))))"
proof (cases "req_file req")
  case None
  then show ?thesis
    by (simp add: route_create_post_def uploaded_def post_data_def Let_def case_prod_beta
        split: sum.splits)
next
  case (Some f)
  with assms have "write_ok e"
    by simp
  with Some show ?thesis
    by (simp add: route_create_post_def uploaded_def post_data_def saveImage_def Let_def
        case_prod_beta split: sum.splits)
qed

lemma map_of_post_data_other:
  assumes "k \<noteq> ''published''" and "k \<noteq> ''imageUrl''" and "k \<noteq> ''imageFileName''"
  shows "map_of (post_data e req) k = map_of (req_body req) k"
  using assms
  by (simp add: post_data_def update_conv' map_of_convert_published_other split: option.splits)

lemma image_keys_post_data:
  "z_string_nullable_optional (map_of (post_data e req) ''imageUrl'') \<noteq> None
   \<and> z_string_nullable_optional (map_of (post_data e req) ''imageFileName'') \<noteq> None"
  by (simp add: post_data_def update_conv' map_of_convert_published_other split: option.splits)

lemma published_post_data:
  "z_boolean_optional (map_of (post_data e req) ''published'') \<noteq> None"
  by (simp add: post_data_def z_boolean_optional_convert_published split: option.splits)

lemma z_string_is_string: "(\<exists>s. z_string v = Some s) = is_string v"
  by (cases v rule: z_string.cases) (simp_all add: is_string_def)

lemma z_string_min1_is_nonempty: "(\<exists>s. z_string_min1 v = Some s) = is_nonempty_string v"
  by (cases v rule: z_string_min1.cases) (auto simp: is_nonempty_string_def Suc_le_eq)

lemma z_string_optional_is_string:
  "(\<exists>s. z_string_optional v = Some s) = (v = None \<or> is_string v)"
  by (cases v rule: z_string_optional.cases) (simp_all add: is_string_def)

lemma parse_post_data:
  "(\<exists>v. insertPostSchema_parse (post_data e req) = Inr v) = valid_create (req_body req)"
proof -
  have keys: "map_of (post_data e req) ''title'' = map_of (req_body req) ''title''"
    "map_of (post_data e req) ''content'' = map_of (req_body req) ''content''"
    "map_of (post_data e req) ''author'' = map_of (req_body req) ''author''"
    "map_of (post_data e req) ''category'' = map_of (req_body req) ''category''"
    by (simp_all add: map_of_post_data_other)
  have "(\<exists>v. insertPostSchema_parse (post_data e req) = Inr v)
        = ((\<exists>s. z_string (map_of (post_data e req) ''title'') = Some s)
           \<and> (\<exists>s. z_string (map_of (post_data e req) ''content'') = Some s)
           \<and> (\<exists>s. z_string_min1 (map_of (post_data e req) ''author'') = Some s)
           \<and> (\<exists>s. z_string_optional (map_of (post_data e req) ''category'') = Some s))"
    using image_keys_post_data [of e req] published_post_data [of e req]
    by (auto simp: insertPostSchema_parse_def split: option.splits)
  then show ?thesis
    unfolding keys z_string_is_string z_string_min1_is_nonempty z_string_optional_is_string
      valid_create_def .
qed

text \<open>What is proved of the handler: which bodies pass, and what a body that fails does.\<close>

lemma route_create_post_validation:
  "(\<not> valid_create (req_body req) \<longrightarrow>
      fst (route_create_post e req st)
        = (if req_file req \<noteq> None \<and> \<not> write_ok e
           then Message 500 ''Failed to create post''
           else Message 400 ''Invalid post data'')
      \<and> fst (snd (route_create_post e req st)) = None
      \<and> posts (snd (snd (route_create_post e req st))) = posts st)
   \<and> ((\<exists>post. fst (route_create_post e req st) = Json 201 post)
        = (valid_create (req_body req) \<and> (req_file req = None \<or> write_ok e)))"
proof (cases "req_file req = None \<or> write_ok e")
  case False
  then obtain f where "req_file req = Some f" and "\<not> write_ok e"
    by auto
  then show ?thesis
    by (simp add: route_create_write_fails)
next
  case True
  note route = route_create_validates [OF True, of st]
  show ?thesis
  proof (cases "valid_create (req_body req)")
    case valid: True
    then obtain v where "insertPostSchema_parse (post_data e req) = Inr v"
      using parse_post_data by blast
    with True valid show ?thesis
      by (simp add: route)
  next
    case invalid: False
    then have "\<nexists>v. insertPostSchema_parse (post_data e req) = Inr v"
      using parse_post_data by blast
    then obtain err where "insertPostSchema_parse (post_data e req) = Inl err"
      by (cases "insertPostSchema_parse (post_data e req)") auto
    with True invalid show ?thesis
      by (auto simp: route)
  qed
qed

text \<open>
  The middleware hands the request on as it is, or refuses it; a refused request is
  answered 500 and the store is as it was.
\<close>

lemma upload_single_Inr: "upload_single req = Inr req' \<Longrightarrow> req' = req"
  by (auto simp: upload_single_def split: option.splits if_splits)

lemma post_api_posts_passed:
  "upload_single req = Inr req \<Longrightarrow> post_api_posts e req st = route_create_post e req st"
  by (simp add: post_api_posts_def)

lemma post_api_posts_refused:
  "upload_single req = Inl err \<Longrightarrow>
   post_api_posts e req st = (UploadRefused err, None, st)"
  by (simp add: post_api_posts_def)

lemma put_api_posts_passed:
  "upload_single req = Inr req \<Longrightarrow> put_api_posts e i req st = route_update_post e i req st"
  by (simp add: put_api_posts_def)

lemma put_api_posts_refused:
  "upload_single req = Inl err \<Longrightarrow>
   put_api_posts e i req st = (UploadRefused err, None, st)"
  by (simp add: put_api_posts_def)

lemma upload_single_cases:
  obtains (passed) "upload_single req = Inr req" | (refused) err where "upload_single req = Inl err"
  by (cases "upload_single req") (auto dest: upload_single_Inr)

text \<open>
  An update that the route answers with 200 is one that its handler answered so;
  what is proved of the handler for an accepted update holds of the route.
\<close>

lemma put_api_posts_accepted:
  assumes "put_api_posts e i req st = (Json 200 p', n, st')"
  shows "route_update_post e i req st = (Json 200 p', n, st')"
proof (cases req rule: upload_single_cases)
  case passed
  with assms show ?thesis
    by (simp add: put_api_posts_passed)
next
  case (refused err)
  with assms show ?thesis
    by (simp add: put_api_posts_refused)
qed

lemma valid_create_required: "valid_create b \<Longrightarrow> required_fields b"
  by (simp add: valid_create_def required_fields_def)

text \<open>
  C3 does not hold as stated. \<open>title\<close> and \<open>content\<close> are checked to be strings and no
  more, so a create with an empty title is accepted and stored. A create without an
  author that carries a file is answered 500, not with the validation failure, when
  the write of the file fails or when the middleware refuses the file; and when the
  file is written, the create fails validation with the file left in the uploads
  directory.
\<close>

theorem empty_title_counterexample:
  "fst (post_api_posts env_1 req_empty_title empty_storage)
     = Json 201 \<lparr>id_of = ''a'', title = [], content = ''B'', author = ''C'', category = None,
         imageUrl = None, imageFileName = None, views = 0, likes = 0, published = True,
         createdAt = 1, updatedAt = 1\<rparr>
   \<and> map (title \<circ> snd) (posts (snd (snd (post_api_posts env_1 req_empty_title empty_storage))))
       = [[]]
   \<and> fst (post_api_posts env_write_fails req_no_author_image empty_storage)
       = Message 500 ''Failed to create post''
   \<and> fst (post_api_posts env_1 req_no_author_text_file empty_storage)
       = UploadRefused TypeNotAllowed
   \<and> fst (post_api_posts env_1 req_no_author_image empty_storage)
       = Message 400 ''Invalid post data''
   \<and> files (snd (snd (post_api_posts env_1 req_no_author_image empty_storage)))
        ''1700000000000-k3x9q.png'' = Some [4, 5, 6]"
  by (simp add: post_api_posts_def upload_single_def allowedTypes_def route_create_post_def
      req_empty_title_def req_no_author_image_def req_no_author_text_file_def env_1_def
      env_write_fails_def empty_storage_def insertPostSchema_parse_def convert_published_def
      createPost_def saveImage_def gen_imageFileName_def nullish_def Let_def)

text \<open>
  C3, amended. For every create request, if \<open>title\<close> or \<open>content\<close> is missing (or not a
  string), or \<open>author\<close> is missing (or not a string) or the empty string, the create
  fails, nothing is broadcast and the items of the store are unchanged; the failure is
  the validation failure 400 whenever the middleware lets the request through and the
  request has no file or the file is written. The create succeeds only when \<open>title\<close>
  and \<open>content\<close> are present and \<open>author\<close> is present and not empty.
\<close>

theorem create_validation:
  "(\<not> required_fields (req_body req) \<longrightarrow>
      (\<forall>post. fst (post_api_posts e req st) \<noteq> Json 201 post)
      \<and> fst (snd (post_api_posts e req st)) = None
      \<and> posts (snd (snd (post_api_posts e req st))) = posts st
      \<and> (upload_single req = Inr req \<and> (req_file req = None \<or> write_ok e) \<longrightarrow>
           fst (post_api_posts e req st) = Message 400 ''Invalid post data''))
   \<and> ((\<exists>post. fst (post_api_posts e req st) = Json 201 post)
        \<longrightarrow> required_fields (req_body req))"
proof (cases req rule: upload_single_cases)
  case (refused err)
  then show ?thesis
    by (simp add: post_api_posts_refused)
next
  case passed
  note handler = route_create_post_validation [of req e st]
  have same: "post_api_posts e req st = route_create_post e req st"
    using passed by (rule post_api_posts_passed)
  show ?thesis
  proof (cases "required_fields (req_body req)")
    case True
    then show ?thesis
      by simp
  next
    case False
    then have "\<not> valid_create (req_body req)"
      using valid_create_required by blast
    with handler False show ?thesis
      unfolding same by auto
  qed
qed

theorem create_validation_witness:
  "fst (post_api_posts env_1 req_empty_author store_a) = Message 400 ''Invalid post data''
   \<and> fst (snd (post_api_posts env_1 req_empty_author store_a)) = None
   \<and> posts (snd (snd (post_api_posts env_1 req_empty_author store_a))) = posts store_a
   \<and> required_fields (req_body req_abc)"
proof -
  have h1: "\<not> required_fields (req_body req_empty_author)"
    by (simp add: required_fields_def req_empty_author_def is_nonempty_string_def)
  have h2: "upload_single req_empty_author = Inr req_empty_author
            \<and> (req_file req_empty_author = None \<or> write_ok env_1)"
    by (simp add: upload_single_def req_empty_author_def)
  have h3: "\<exists>post. fst (post_api_posts env_1 req_abc store_a) = Json 201 post"
    by (simp add: post_api_posts_def upload_single_def route_create_post_def req_abc_def
        env_1_def insertPostSchema_parse_def convert_published_def createPost_def Let_def)
  show ?thesis
    using create_validation [of req_empty_author env_1 store_a]
      create_validation [of req_abc env_1 store_a] h1 h2 h3
    by blast
qed

section \<open>The image reference through the routes\<close>

lemma insertPostSchema_parse_image:
  assumes "insertPostSchema_parse data = Inr v"
  shows "imageUrl_in v = the (z_string_nullable_optional (map_of data ''imageUrl''))
       \<and> imageFileName_in v = the (z_string_nullable_optional (map_of data ''imageFileName''))"
  using assms by (auto simp: insertPostSchema_parse_def split: option.splits)

lemma updateSchema_parse_image:
  assumes "updateSchema_parse data = Inr v"
  shows "imageUrl_upd v = the (z_string_nullable_optional (map_of data ''imageUrl''))
       \<and> imageFileName_upd v = the (z_string_nullable_optional (map_of data ''imageFileName''))"
  using assms by (auto simp: updateSchema_parse_def split: option.splits)

lemma image_keys_of_post_data:
  "map_of (post_data e req) ''imageUrl''
     = (case req_file req of None \<Rightarrow> Some JNull
        | Some f \<Rightarrow> Some (JStr (''/uploads/'' @ gen_imageFileName e f)))"
  "map_of (post_data e req) ''imageFileName''
     = (case req_file req of None \<Rightarrow> Some JNull | Some f \<Rightarrow> Some (JStr (gen_imageFileName e f)))"
  by (simp_all add: post_data_def update_conv' map_of_convert_published_other split: option.splits)

lemma store_paired_uploaded [simp]: "store_paired (uploaded e req st) = store_paired st"
  by (simp add: store_paired_def)

text \<open>The create handler stores the two parts together, whatever the body says.\<close>

lemma route_create_keeps_paired:
  assumes "store_paired st"
  shows "store_paired (snd (snd (route_create_post e req st)))"
proof (cases "req_file req = None \<or> write_ok e")
  case False
  then obtain f where "req_file req = Some f" and "\<not> write_ok e"
    by auto
  then show ?thesis
    using assms by (simp add: route_create_write_fails)
next
  case True
  note route = route_create_validates [OF True, of st]
  show ?thesis
  proof (cases "insertPostSchema_parse (post_data e req)")
    case (Inl err)
    then show ?thesis
      using assms by (simp add: route)
  next
    case (Inr v)
    have input: "paired_input (OpCreate (env_uuid e) (env_now e) v)"
      using insertPostSchema_parse_image [OF Inr]
      by (auto simp: image_keys_of_post_data nullish_def split: option.splits)
    have "store_paired (uploaded e req st)"
      using assms by simp
    then have "store_paired (exec (OpCreate (env_uuid e) (env_now e) v) (uploaded e req st))"
      using input by (rule exec_paired)
    then show ?thesis
      by (simp add: route Inr)
  qed
qed

lemma posts_rewritten [simp]: "posts (rewritten e p req st) = posts st"
  by (simp add: rewritten_def split: option.splits)

lemma route_update_validates:
  assumes "getPost st i = Some p" and "req_file req = None \<or> write_ok e"
  shows "route_update_post e i req st
     = (case updateSchema_parse (update_data e req) of
          Inl err \<Rightarrow> (Message 400 ''Invalid update data'', None, rewritten e p req st)
        | Inr validatedData \<Rightarrow>
            (Json 200 ((spread p validatedData)\<lparr>updatedAt := env_now e\<rparr>),
             Some (''post_updated'', PostData ((spread p validatedData)\<lparr>updatedAt := env_now e\<rparr>)),
             (rewritten e p req st)\<lparr>posts :=
                AList.update i ((spread p validatedData)\<lparr>updatedAt := env_now e\<rparr>) (posts st)\<rparr>))"
proof -
  have found: "getPost (rewritten e p req st) i = Some p"
    using assms(1) by (simp add: getPost_def)
  have upd: "updatePost (env_now e) i v (rewritten e p req st)
     = (Some ((spread p v)\<lparr>updatedAt := env_now e\<rparr>),
        (rewritten e p req st)\<lparr>posts :=
           AList.update i ((spread p v)\<lparr>updatedAt := env_now e\<rparr>) (posts st)\<rparr>)" for v
    using updatePost_found [OF found] by simp
  show ?thesis
  proof (cases "req_file req")
    case None
    then show ?thesis
      using assms(1) upd
      by (simp add: route_update_post_def update_data_def rewritten_def Let_def split: sum.splits)
  next
    case (Some f)
    with assms(2) have ok: "write_ok e"
      by simp
    have "saveImage (write_ok e) (buffer f) (gen_imageFileName e f) (released e p st)
       = (Inr (''/uploads/'' @ gen_imageFileName e f), rewritten e p req st)"
      using ok Some by (simp add: rewritten_def saveImage_def Let_def)
    then show ?thesis
      using assms(1) Some upd
      by (simp add: route_update_post_def update_data_def released_def [symmetric] Let_def
          split: sum.splits)
  qed
qed

lemma route_update_unchanged_or_accepted:
  "posts (snd (snd (route_update_post e i req st))) = posts st
   \<or> (\<exists>p' n st'. route_update_post e i req st = (Json 200 p', n, st'))"
proof (cases "getPost st i")
  case None
  then show ?thesis
    by (simp add: route_update_post_def)
next
  case (Some p)
  show ?thesis
  proof (cases "req_file req = None \<or> write_ok e")
    case False
    then obtain f where "req_file req = Some f" and "\<not> write_ok e"
      by auto
    then show ?thesis
      using Some by (simp add: route_update_write_fails)
  next
    case True
    show ?thesis
      by (cases "updateSchema_parse (update_data e req)")
         (simp_all add: route_update_validates [OF Some True])
  qed
qed

text \<open>
  The update handler does so when a file is uploaded, or when the body has neither
  \<open>imageUrl\<close> nor \<open>imageFileName\<close>.
\<close>

lemma route_update_keeps_paired:
  assumes "store_paired st"
    and "req_file req \<noteq> None
         \<or> (map_of (req_body req) ''imageUrl'' = None \<and> map_of (req_body req) ''imageFileName'' = None)"
  shows "store_paired (snd (snd (route_update_post e i req st)))"
proof -
  consider (same) "posts (snd (snd (route_update_post e i req st))) = posts st"
    | (accepted) p' n st' where "route_update_post e i req st = (Json 200 p', n, st')"
    using route_update_unchanged_or_accepted by blast
  then show ?thesis
  proof cases
    case same
    then show ?thesis
      using assms(1) by (simp add: store_paired_def)
  next
    case accepted
    have "getPost st i \<noteq> None"
      using accepted by (auto simp: route_update_post_def split: option.splits)
    then obtain p where p: "getPost st i = Some p"
      by auto
    from route_update_accepted [OF p accepted]
    obtain v st2 where parse: "updateSchema_parse (update_data e req) = Inr v"
      and same: "posts st2 = posts st"
      and upd: "updatePost (env_now e) i v st2 = (Some p', st')"
      by blast
    have input: "paired_input (OpUpdate (env_now e) i v)"
      using updateSchema_parse_image [OF parse] assms(2)
      by (auto simp: update_data_def update_conv' map_of_convert_published_other
          split: option.splits)
    have "store_paired st2"
      using assms(1) same by (simp add: store_paired_def)
    then have "store_paired (exec (OpUpdate (env_now e) i v) st2)"
      using input by (rule exec_paired)
    then show ?thesis
      by (simp add: accepted upd)
  qed
qed

lemma route_delete_state:
  "snd (snd (route_delete_post e i st)) = exec (OpDelete (unlink_ok e) i) st"
  by (cases "deletePost (unlink_ok e) i st") (auto simp: route_delete_post_def split: bool.splits)

lemma route_like_state:
  "snd (snd (route_like_post e i st)) = exec (OpLike (env_now e) i) st"
  by (cases "toggleLike (env_now e) i st") (auto simp: route_like_post_def split: option.splits)

lemma handle_paired:
  assumes "store_paired st" and "image_keys_together c"
  shows "store_paired (handle c st)"
proof (cases c)
  case (ApiCreate e req)
  show ?thesis
  proof (cases req rule: upload_single_cases)
    case passed
    then show ?thesis
      using assms(1) ApiCreate by (simp add: post_api_posts_passed route_create_keeps_paired)
  next
    case (refused err)
    then show ?thesis
      using assms(1) ApiCreate by (simp add: post_api_posts_refused)
  qed
next
  case (ApiUpdate e i req)
  show ?thesis
  proof (cases req rule: upload_single_cases)
    case passed
    then show ?thesis
      using assms ApiUpdate by (simp add: put_api_posts_passed route_update_keeps_paired)
  next
    case (refused err)
    then show ?thesis
      using assms(1) ApiUpdate by (simp add: put_api_posts_refused)
  qed
next
  case (ApiDelete e i)
  have "store_paired (exec (OpDelete (unlink_ok e) i) st)"
    using assms(1) by (rule exec_paired) simp
  then show ?thesis
    using ApiDelete by (simp add: route_delete_state)
next
  case (ApiLike e i)
  have "store_paired (exec (OpLike (env_now e) i) st)"
    using assms(1) by (rule exec_paired) simp
  then show ?thesis
    using ApiLike by (simp add: route_like_state)
qed

text \<open>
  Served through the handlers, the store keeps every reference paired as long as no
  update names an image key in its body without uploading a file.
\<close>

lemma serve_paired:
  "store_paired st \<Longrightarrow> \<forall>c \<in> set calls. image_keys_together c \<Longrightarrow> store_paired (serve calls st)"
  by (induction calls arbitrary: st) (simp_all add: serve_def handle_paired)

section \<open>Properties of the broadcast\<close>

lemma forEach_write_conns:
  "fst (forEach_write throws m todo conns) = filter (\<lambda>c. \<not> (c \<in> set todo \<and> throws c)) conns"
proof (induction todo arbitrary: conns)
  case Nil
  then show ?case by simp
next
  case (Cons res todo)
  show ?case
  proof (cases "throws res")
    case True
    have "fst (forEach_write throws m (res # todo) conns)
          = fst (forEach_write throws m todo (removeAll res conns))"
      using True by (simp add: case_prod_beta)
    also have "\<dots> = filter (\<lambda>c. \<not> (c \<in> set todo \<and> throws c)) (removeAll res conns)"
      by (rule Cons.IH)
    also have "\<dots> = filter (\<lambda>c. \<not> (c \<in> set (res # todo) \<and> throws c)) conns"
      using True by (induction conns) auto
    finally show ?thesis .
  next
    case False
    have "fst (forEach_write throws m (res # todo) conns)
          = fst (forEach_write throws m todo conns)"
      using False by (simp add: case_prod_beta)
    also have "\<dots> = filter (\<lambda>c. \<not> (c \<in> set todo \<and> throws c)) conns"
      by (rule Cons.IH)
    also have "\<dots> = filter (\<lambda>c. \<not> (c \<in> set (res # todo) \<and> throws c)) conns"
      using False by (induction conns) auto
    finally show ?thesis .
  qed
qed

lemma forEach_write_received:
  "received c (snd (forEach_write throws m todo conns))
     = (if throws c then [] else replicate (count_list todo c) m)"
  by (induction todo arbitrary: conns) (simp_all add: case_prod_beta)

lemma forEach_write_attempts:
  "attempts c (snd (forEach_write throws m todo conns)) = count_list todo c"
  by (induction todo arbitrary: conns) (simp_all add: case_prod_beta)

lemma forEach_write_serializations:
  "serializations (snd (forEach_write throws m todo conns)) = 0"
  by (induction todo arbitrary: conns) (simp_all add: case_prod_beta)

lemma count_list_distinct: "distinct xs \<Longrightarrow> x \<in> set xs \<Longrightarrow> count_list xs x = 1"
  by (induction xs) auto

lemma broadcastUpdate_unfold:
  "broadcastUpdate stringify throws ty data conns
     = (fst (forEach_write throws (''data: '' @ stringify ty data @ [CHR 0x0A, CHR 0x0A]) conns conns),
        Stringified (''data: '' @ stringify ty data @ [CHR 0x0A, CHR 0x0A])
          # snd (forEach_write throws (''data: '' @ stringify ty data @ [CHR 0x0A, CHR 0x0A]) conns conns))"
  by (simp add: broadcastUpdate_def Let_def case_prod_beta)

text \<open>
  C5. For every set of connections at the time of the call (a list without
  repetition), \<open>broadcastUpdate\<close> serializes once, and \<open>write\<close> is called exactly once
  for every connection of the set, with the one message. A connection whose write
  does not throw has received exactly one copy and stays in the set; a connection
  whose write throws has received nothing and is removed from the set, and this
  changes nothing for the others. Nothing is written to a connection outside the
  set, and the set afterwards is the old one without the connections that threw.
\<close>

theorem broadcast_one_copy_each:
  assumes "distinct conns"
    and "broadcastUpdate stringify throws ty data conns = (conns', evs)"
    and "message = ''data: '' @ stringify ty data @ [CHR 0x0A, CHR 0x0A]"
  shows "serializations evs = 1
       \<and> (\<forall>c \<in> set conns. attempts c evs = 1
             \<and> (\<not> throws c \<longrightarrow> received c evs = [message] \<and> c \<in> set conns')
             \<and> (throws c \<longrightarrow> received c evs = [] \<and> c \<notin> set conns'))
       \<and> (\<forall>c. c \<notin> set conns \<longrightarrow> attempts c evs = 0 \<and> received c evs = [])
       \<and> conns' = filter (\<lambda>c. \<not> throws c) conns"
proof -
  let ?r = "forEach_write throws message conns conns"
  have conns': "conns' = fst ?r" and evs: "evs = Stringified message # snd ?r"
    using assms(2,3) by (simp_all add: broadcastUpdate_unfold)
  have ser: "serializations evs = 1"
    by (simp add: evs forEach_write_serializations)
  have att: "attempts c evs = count_list conns c" for c
    by (simp add: evs forEach_write_attempts)
  have rec: "received c evs = (if throws c then [] else replicate (count_list conns c) message)" for c
    by (simp add: evs forEach_write_received)
  have left: "conns' = filter (\<lambda>c. \<not> throws c) conns"
    unfolding conns' forEach_write_conns by (rule filter_cong) auto
  have one: "count_list conns c = 1" if "c \<in> set conns" for c
    using assms(1) that by (rule count_list_distinct)
  have "\<forall>c \<in> set conns. attempts c evs = 1
             \<and> (\<not> throws c \<longrightarrow> received c evs = [message] \<and> c \<in> set conns')
             \<and> (throws c \<longrightarrow> received c evs = [] \<and> c \<notin> set conns')"
    by (simp add: att rec one left)
  moreover have "\<forall>c. c \<notin> set conns \<longrightarrow> attempts c evs = 0 \<and> received c evs = []"
    by (simp add: att rec)
  ultimately show ?thesis
    using ser left by blast
qed

lemma forEach_write_example:
  "forEach_write (\<lambda>c. c = 2) m [1, 2, 3] [1, 2, 3] = ([1, 3], [Wrote 1 m, WriteThrew 2 m, Wrote 3 m])"
  by simp

lemma broadcastUpdate_example:
  "broadcastUpdate stringify_example (\<lambda>c. c = 2) ''post_liked'' ''x'' [1, 2, 3]
     = ([1, 3], events_example)"
  by (simp add: broadcastUpdate_unfold forEach_write_example message_example_def events_example_def)

theorem broadcast_one_copy_each_witness:
  "serializations events_example = 1
   \<and> received 1 events_example = [message_example]
   \<and> received 2 events_example = []
   \<and> received 3 events_example = [message_example]"
proof -
  have h1: "distinct [1, 2, 3 :: nat]"
    by simp
  note t = broadcast_one_copy_each
    [where stringify = stringify_example and throws = "\<lambda>c. c = 2" and ty = "''post_liked''"
       and data = "''x''" and conns = "[1, 2, 3]" and conns' = "[1, 3]"
       and evs = events_example and message = message_example,
     OF h1 broadcastUpdate_example message_example_def]
  have ser: "serializations events_example = 1"
    using t by (rule conjunct1)
  have each: "\<forall>c \<in> set [1, 2, 3 :: nat]. attempts c events_example = 1
             \<and> (\<not> c = 2 \<longrightarrow> received c events_example = [message_example] \<and> c \<in> set [1, 3])
             \<and> (c = 2 \<longrightarrow> received c events_example = [] \<and> c \<notin> set [1, 3])"
    using t by (rule conjunct1 [OF conjunct2])
  have r1: "received 1 events_example = [message_example]"
    using bspec [OF each, of 1] by simp
  have r2: "received 2 events_example = []"
    using bspec [OF each, of 2] by simp
  have r3: "received 3 events_example = [message_example]"
    using bspec [OF each, of 3] by simp
  from ser r1 r2 r3 show ?thesis
    by simp
qed

section \<open>Properties of the like button\<close>

text \<open>
  A like that is let through (the identifier is not in the liked set and is not the
  one \<open>isLiking\<close> holds) schedules exactly one request and makes \<open>isLiking\<close> hold the
  identifier.
\<close>

lemma handleLike_lets_through:
  assumes "postId \<notin> likedPosts pg" and "isLiking pg \<noteq> Some postId"
  shows "timers (handleLike postId postTitle pg) = timers pg @ [postId]
       \<and> isLiking (handleLike postId postTitle pg) = Some postId
       \<and> requests (handleLike postId postTitle pg) = requests pg
       \<and> likedPosts (handleLike postId postTitle pg) = likedPosts pg"
  using assms by (simp add: handleLike_def)

text \<open>
  The two refusals of \<open>handleLike\<close>: for an identifier in the liked set it shows the
  toast ``Already liked!'' and schedules nothing; for the identifier that \<open>isLiking\<close>
  holds it does nothing. The like button is disabled in exactly these two cases, so a
  click reaches neither.
\<close>

lemma handleLike_refuses:
  "(postId \<in> likedPosts pg \<longrightarrow>
      handleLike postId postTitle pg = pg\<lparr>toasts := toasts pg @ [AlreadyLiked]\<rparr>
      \<and> timers (handleLike postId postTitle pg) = timers pg
      \<and> inflight (handleLike postId postTitle pg) = inflight pg
      \<and> requests (handleLike postId postTitle pg) = requests pg)
   \<and> (postId \<notin> likedPosts pg \<and> isLiking pg = Some postId \<longrightarrow>
      handleLike postId postTitle pg = pg)"
  by (simp add: handleLike_def)

lemma click_like_disabled:
  "like_button_disabled postId pg \<Longrightarrow> click_like postId postTitle pg = pg"
  by (simp add: click_like_def)

lemma click_like_enabled:
  "\<not> like_button_disabled postId pg \<Longrightarrow>
   timers (click_like postId postTitle pg) = timers pg @ [postId]
   \<and> isLiking (click_like postId postTitle pg) = Some postId"
  by (simp add: click_like_def like_button_disabled_def handleLike_def)

text \<open>
  C9: the code at the input where it breaks the claim. On a fresh page the like button
  of \<open>x\<close> is clicked, then the one of \<open>y\<close>, then the one of \<open>x\<close> again. \<open>isLiking\<close> is
  one slot and now holds \<open>y\<close>, so while the submission for \<open>x\<close> is still outstanding
  the button of \<open>x\<close> is enabled again and \<open>handleLike\<close> lets the second like through:
  two callbacks for \<open>x\<close> wait, and when the timers have run two requests for \<open>x\<close>
  have been sent. The same happens after any like request is answered, since
  \<open>onSuccess\<close> and \<open>onError\<close> clear \<open>isLiking\<close> whatever it holds.
\<close>

theorem second_like_of_same_post_is_sent:
  "outstanding ''x'' (click_like ''y'' ''Y'' (click_like ''x'' ''X'' initial_page))
   \<and> \<not> like_button_disabled ''x'' (click_like ''y'' ''Y'' (click_like ''x'' ''X'' initial_page))
   \<and> timers (click_like ''x'' ''X'' (click_like ''y'' ''Y'' (click_like ''x'' ''X'' initial_page)))
       = [''x'', ''y'', ''x'']
   \<and> requests (timer_fires (timer_fires (timer_fires
        (click_like ''x'' ''X'' (click_like ''y'' ''Y'' (click_like ''x'' ''X'' initial_page))))))
       = [''x'', ''y'', ''x'']
   \<and> outstanding ''x'' (like_onSuccess ''y'' (timer_fires (timer_fires
        (click_like ''x'' ''X'' (click_like ''y'' ''Y'' initial_page)))))
   \<and> \<not> like_button_disabled ''x'' (like_onSuccess ''y'' (timer_fires (timer_fires
        (click_like ''x'' ''X'' (click_like ''y'' ''Y'' initial_page)))))"
  by (simp add: click_like_def like_button_disabled_def handleLike_def initial_page_def
      outstanding_def timer_fires_def like_onSuccess_def)

end
